theory Spec2Isabelle
  imports Main "HOL-Library.Word" "HOL-Library.Char_ord" "HOL-Library.List_Lexorder"
    "HOL-Library.Multiset" "HOL-Library.Sublist"
begin

unbundle bit_operations_syntax

section \<open>The pull command (pkg/imgpkg/cmd/pull.go)\<close>

subsection \<open>Data\<close>

text \<open>
  A Go \<open>error\<close> is modelled by its message; \<open>fmt.Errorf("Collecting images: %s", err)\<close>
  is the concatenation of the prefix and the message of \<open>err\<close>. A call that returns
  \<open>(v, err)\<close> is a value of \<open>err + 'a\<close>, with \<open>Inl\<close> the error; a call that returns only
  an error is an \<open>err option\<close>, with \<open>None\<close> for \<open>nil\<close>.
\<close>

type_synonym err = string

record ImageFlags =
  Image :: string

record BundleFlags =
  Bundle :: string

text \<open>
  \<open>PullOptions\<close>. The field \<open>ui\<close> is the output channel and lives in the world below;
  \<open>RegistryFlags\<close> only configures the registry, which is a parameter of the model.
\<close>

record PullOptions =
  ImageFlags :: ImageFlags
  BundleFlags :: BundleFlags
  OutputPath :: string
  LockPath :: string

text \<open>
  \<open>ImageLocation\<close>, \<open>ImageDesc\<close> and the image lock document. \<open>ImageDesc\<close> embeds
  \<open>ImageLocation\<close>, so \<open>img.DigestRef\<close> reads the embedded field; the record extension
  does the same. The type of \<open>Metadata\<close> is left open. The fields of the lock document
  other than \<open>Spec.Images\<close> are not touched by this file and are kept in the record's
  extension slot.
\<close>

record ImageLocation =
  DigestRef :: string
  OriginalTag :: string

record 'md ImageDesc = ImageLocation +
  Name :: string
  Metadata :: 'md

record 'md ImageLockSpec =
  Images :: "'md ImageDesc list"

record 'md ImageLock =
  Spec :: "'md ImageLockSpec"

text \<open>
  \<open>regname.Reference\<close>: \<open>ref.Context().Name()\<close> is the repository, and \<open>%s\<close> of
  \<open>ref.Context()\<close> prints the same name.
\<close>

record Reference =
  Context :: string
  Identifier :: string

text \<open>
  The manifest of an image: only its annotations are read. In Go, indexing a map with an
  absent key yields the empty string, and the two-valued form reports presence.
\<close>

record manifest =
  Annotations :: "string \<rightharpoonup> string"

definition annotation :: "manifest \<Rightarrow> string \<Rightarrow> string" where
  "annotation m k = (case Annotations m k of None \<Rightarrow> [] | Some v \<Rightarrow> v)"

definition has_annotation :: "manifest \<Rightarrow> string \<Rightarrow> bool" where
  "has_annotation m k = (Annotations m k \<noteq> None)"

text \<open>
  An image as returned by \<open>Images()\<close>: what its methods \<open>Manifest()\<close> and \<open>Digest()\<close>
  return when called (each is called at most once per pull).
\<close>

record image =
  Manifest :: "err + manifest"
  Digest :: "err + string"

subsection \<open>The world outside the command\<close>

text \<open>
  Every access to the network or the filesystem is recorded, in order, in a trace; the
  lines handed to \<open>ui.BeginLinef\<close> are recorded in \<open>ui\<close>. The filesystem itself is a
  value of an arbitrary type \<open>'fs\<close> that only the host's operations read or change.
\<close>

datatype event =
    EvReadFile string
  | EvImages string
  | EvManifest
  | EvDigest
  | EvRemoveAll string
  | EvMkdirAll string
  | EvAsDirectory string
  | EvReadImageLockFile string
  | EvGeneric string
  | EvWriteFile string string nat

record 'fs world =
  fs :: 'fs
  ui :: "string list"
  trace :: "event list"

definition BeginLinef :: "string \<Rightarrow> 'fs world \<Rightarrow> 'fs world" where
  "BeginLinef s w = w\<lparr>ui := ui w @ [s]\<rparr>"

definition record_event :: "event \<Rightarrow> 'fs world \<Rightarrow> 'fs world" where
  "record_event e w = w\<lparr>trace := trace w @ [e]\<rparr>"

text \<open>
  The functions this file calls and does not define: the Go standard library, the yaml
  and registry libraries, and the other files of the package (\<open>ReadImageLockFile\<close>,
  \<open>ImageWithRepository\<close>, \<open>NewImages\<close>, \<open>NewDirImage\<close>, the constants \<open>BundleAnnotation\<close>,
  \<open>BundleDir\<close> and \<open>ImageLockFile\<close>). They are parameters of the model.
  \<^item> \<open>imageLockPath out\<close> is \<open>filepath.Join(out, BundleDir, ImageLockFile)\<close>;
  \<^item> \<open>AsDirectory\<close> also returns the lines it prints on the ui;
  \<^item> an operation on the filesystem returns the filesystem it leaves behind, also when
    it fails.
\<close>

record ('fs, 'md, 'z) host =
  BundleAnnotation :: string
  ReadFile :: "'fs \<Rightarrow> string \<Rightarrow> err + string"
  UnmarshalBundleLock :: "string \<Rightarrow> err + string"
  ParseReference :: "string \<Rightarrow> err + Reference"
  RegistryImages :: "Reference \<Rightarrow> err + image list"
  RemoveAll :: "string \<Rightarrow> 'fs \<Rightarrow> err option \<times> 'fs"
  MkdirAll :: "string \<Rightarrow> nat \<Rightarrow> 'fs \<Rightarrow> err option \<times> 'fs"
  AsDirectory :: "string \<Rightarrow> image \<Rightarrow> 'fs \<Rightarrow> err option \<times> 'fs \<times> string list"
  imageLockPath :: "string \<Rightarrow> string"
  ReadImageLockFile :: "'fs \<Rightarrow> string \<Rightarrow> err + ('md, 'z) ImageLock_scheme"
  ImageWithRepository :: "string \<Rightarrow> string \<Rightarrow> err + string"
  NewDigest :: "string \<Rightarrow> err + Reference"
  Generic :: "Reference \<Rightarrow> err option"
  Marshal :: "('md, 'z) ImageLock_scheme \<Rightarrow> err + string"
  WriteFile :: "string \<Rightarrow> string \<Rightarrow> nat \<Rightarrow> 'fs \<Rightarrow> err option \<times> 'fs"

subsection \<open>getRefFromFlags\<close>

text \<open>
  The loop over \<open>[o.LockPath, o.ImageFlags.Image, o.BundleFlags.Bundle]\<close>, with the
  variable \<open>ref\<close> as accumulator: an empty string is skipped, a second non-empty one is
  the error.
\<close>

fun pickRef :: "string \<Rightarrow> string list \<Rightarrow> err + string" where
  "pickRef ref [] = Inr ref"
| "pickRef ref (s # ss) =
     (if s = [] then pickRef ref ss
      else if ref \<noteq> [] then Inl ''Expected only one of image, bundle, or lock''
      else pickRef s ss)"

definition getRefFromFlags ::
  "('fs, 'md, 'z) host \<Rightarrow> PullOptions \<Rightarrow> 'fs world \<Rightarrow> (err + string) \<times> 'fs world" where
  "getRefFromFlags h opts w =
     (case pickRef [] [LockPath opts, Image (ImageFlags opts), Bundle (BundleFlags opts)] of
        Inl e \<Rightarrow> (Inl e, w)
      | Inr ref \<Rightarrow>
          if ref = [] then (Inl ''Expected either image, bundle, or lock'', w)
          else if LockPath opts = [] then (Inr ref, w)
          else
            (let w1 = record_event (EvReadFile ref) w in
             case ReadFile h (fs w1) ref of
               Inl e \<Rightarrow> (Inl e, w1)
             | Inr lockBytes \<Rightarrow>
                 (case UnmarshalBundleLock h lockBytes of
                    Inl e \<Rightarrow> (Inl e, w1)
                  | Inr digestRef \<Rightarrow> (Inr digestRef, w1))))"

subsection \<open>rewriteImageLock\<close>

text \<open>
  How the loop over \<open>lockFile.Spec.Images\<close> ends: by a \<open>return\<close> from inside the loop
  (with the returned error, \<open>None\<close> for \<open>nil\<close>), or by running to its end with the
  accumulated \<open>newImgDescs\<close>.
\<close>

datatype 'a loop_exit = Return "err option" | Finished 'a

fun locate ::
  "('fs, 'md, 'z) host \<Rightarrow> Reference \<Rightarrow> 'md ImageDesc list \<Rightarrow> 'md ImageDesc list \<Rightarrow>
   'fs world \<Rightarrow> 'md ImageDesc list loop_exit \<times> 'fs world" where
  "locate h ref [] newImgDescs w = (Finished newImgDescs, w)"
| "locate h ref (img # imgs) newImgDescs w =
     (let bundleRepo = Context ref in
      case ImageWithRepository h (DigestRef img) bundleRepo of
        Inl e \<Rightarrow> (Return (Some e), w)
      | Inr newURL \<Rightarrow>
          (case NewDigest h newURL of
             Inl e \<Rightarrow> (Return (Some e), w)
           | Inr dref \<Rightarrow>
               (let w1 = record_event (EvGeneric newURL) w in
                case Generic h dref of
                  None \<Rightarrow>
                    locate h ref imgs
                      (newImgDescs @
                        [\<lparr>DigestRef = newURL, OriginalTag = OriginalTag img,
                          Name = Name img, Metadata = Metadata img\<rparr>]) w1
                | Some e \<Rightarrow>
                    (Return None,
                     BeginLinef
                       ''One or more images not found in bundle repo. Skipping lock file update\<newline>''
                       w1))))"

definition rewriteImageLock ::
  "('fs, 'md, 'z) host \<Rightarrow> PullOptions \<Rightarrow> Reference \<Rightarrow> 'fs world \<Rightarrow> err option \<times> 'fs world" where
  "rewriteImageLock h opts ref w =
     (let imageLockDir = imageLockPath h (OutputPath opts);
          w1 = record_event (EvReadImageLockFile imageLockDir) w in
      case ReadImageLockFile h (fs w1) imageLockDir of
        Inl e \<Rightarrow> (Some (''Reading image lock file: '' @ e), w1)
      | Inr lockFile \<Rightarrow>
          if length (Images (Spec lockFile)) = 0 then (None, w1)
          else
            (let w2 = BeginLinef ''Locating image lock file images...\<newline>'' w1 in
             case locate h ref (Images (Spec lockFile)) [] w2 of
               (Return r, w3) \<Rightarrow> (r, w3)
             | (Finished newImgDescs, w3) \<Rightarrow>
                 (let lockFile' = lockFile\<lparr>Spec := (Spec lockFile)\<lparr>Images := newImgDescs\<rparr>\<rparr> in
                  case Marshal h lockFile' of
                    Inl e \<Rightarrow> (Some (''Marshalling image lock file: '' @ e), w3)
                  | Inr imgLockBytes \<Rightarrow>
                      (let w4 = BeginLinef
                                  ''All images found in bundle repo. Updating lock file\<newline>'' w3;
                           w5 = record_event (EvWriteFile imageLockDir imgLockBytes 600) w4;
                           (r, fs') = WriteFile h imageLockDir imgLockBytes 600 (fs w5)
                       in (r, w5\<lparr>fs := fs'\<rparr>)))))"

subsection \<open>Run\<close>

definition quoted :: "string \<Rightarrow> string" where
  "quoted s = CHR 0x27 # s @ [CHR 0x27]"

text \<open>
  The check of the caller's intent against the manifest (the \<open>if\<close>/\<open>else if\<close> after
  \<open>img.Manifest()\<close>): the error it returns, if any.
\<close>

definition checkIntent :: "('fs, 'md, 'z) host \<Rightarrow> PullOptions \<Rightarrow> manifest \<Rightarrow> err option" where
  "checkIntent h opts m =
     (if Image (ImageFlags opts) \<noteq> [] then
        (if has_annotation m (BundleAnnotation h)
         then Some ''Expected bundle flag when pulling a bundle, please use -b instead of --image''
         else None)
      else if annotation m (BundleAnnotation h) \<noteq> ''true''
        then Some ''Expected image flag when pulling an image or index, please use --image instead of -b''
      else None)"

text \<open>
  \<open>Run\<close>, statement by statement. \<open>NewRegistry\<close> only builds the registry value from the
  flags. The mode \<open>0700\<close> of \<open>MkdirAll\<close> is 448; the mode of \<open>WriteFile\<close> in
  \<open>rewriteImageLock\<close> is written \<open>600\<close> in the source, a decimal literal.
\<close>

definition Run :: "('fs, 'md, 'z) host \<Rightarrow> PullOptions \<Rightarrow> 'fs world \<Rightarrow> err option \<times> 'fs world" where
  "Run h opts w =
     (case getRefFromFlags h opts w of
        (Inl e, w1) \<Rightarrow> (Some e, w1)
      | (Inr inputRef, w1) \<Rightarrow>
     (case ParseReference h inputRef of
        Inl e \<Rightarrow> (Some e, w1)
      | Inr ref \<Rightarrow>
     (let w2 = record_event (EvImages inputRef) w1 in
      case RegistryImages h ref of
        Inl e \<Rightarrow> (Some (''Collecting images: '' @ e), w2)
      | Inr imgs \<Rightarrow>
     if length imgs = 0
     then (Some ''Expected to find at least one image, but found none'', w2)
     else
     (let w3 = (if 1 < length imgs
                then BeginLinef ''Found multiple images, extracting first\<newline>'' w2 else w2);
          img = imgs ! 0;
          w4 = record_event EvManifest w3 in
      case Manifest img of
        Inl e \<Rightarrow> (Some (''Getting image manifest: '' @ e), w4)
      | Inr manifest \<Rightarrow>
     (case checkIntent h opts manifest of
        Some e \<Rightarrow> (Some e, w4)
      | None \<Rightarrow>
     (let w5 = record_event EvDigest w4 in
      case Digest img of
        Inl e \<Rightarrow> (Some (''Getting image digest: '' @ e), w5)
      | Inr digest \<Rightarrow>
     (let w6 = BeginLinef
                 (''Pulling image '' @ quoted (Context ref @ ''@'' @ digest) @ ''\<newline>'') w5 in
      if OutputPath opts = ''/'' \<or> OutputPath opts = ''.'' \<or> OutputPath opts = ''..''
      then (Some ''Disallowed output directory (trying to avoid accidental deletion)'', w6)
      else
     (let w7 = record_event (EvRemoveAll (OutputPath opts)) w6;
          (r1, fs1) = RemoveAll h (OutputPath opts) (fs w7);
          w8 = w7\<lparr>fs := fs1\<rparr> in
      case r1 of
        Some e \<Rightarrow> (Some (''Removing output directory: '' @ e), w8)
      | None \<Rightarrow>
     (let w9 = record_event (EvMkdirAll (OutputPath opts)) w8;
          (r2, fs2) = MkdirAll h (OutputPath opts) 448 (fs w9);
          w10 = w9\<lparr>fs := fs2\<rparr> in
      case r2 of
        Some e \<Rightarrow> (Some (''Creating output directory: '' @ e), w10)
      | None \<Rightarrow>
     (let w11 = record_event (EvAsDirectory (OutputPath opts)) w10;
          (r3, fs3, lines) = AsDirectory h (OutputPath opts) img (fs w11);
          w12 = w11\<lparr>fs := fs3, ui := ui w11 @ lines\<rparr> in
      case r3 of
        Some e \<Rightarrow> (Some (''Extracting image into directory: '' @ e), w12)
      | None \<Rightarrow>
     if Bundle (BundleFlags opts) \<noteq> []
     then
       (case rewriteImageLock h opts ref w12 of
          (Some e, w13) \<Rightarrow> (Some (''Rewriting image lock file: '' @ e), w13)
        | (None, w13) \<Rightarrow> (None, w13))
     else (None, w12)))))))))))"

section \<open>The tar image (pkg/imgpkg/image, second part of the file)\<close>

subsection \<open>Files, directories and their \<open>os.FileInfo\<close>\<close>

text \<open>
  The bits of \<open>os.FileMode\<close> (a \<open>uint32\<close>), with the values of Go's package \<open>os\<close>;
  \<open>ModeType\<close> is the mask of the type bits.
\<close>

definition ModeDir :: "32 word" where "ModeDir = push_bit 31 1"
definition ModeSymlink :: "32 word" where "ModeSymlink = push_bit 27 1"
definition ModeDevice :: "32 word" where "ModeDevice = push_bit 26 1"
definition ModeNamedPipe :: "32 word" where "ModeNamedPipe = push_bit 25 1"
definition ModeSocket :: "32 word" where "ModeSocket = push_bit 24 1"
definition ModeCharDevice :: "32 word" where "ModeCharDevice = push_bit 21 1"
definition ModeIrregular :: "32 word" where "ModeIrregular = push_bit 19 1"

definition ModeType :: "32 word" where
  "ModeType = ModeDir OR ModeSymlink OR ModeNamedPipe OR ModeSocket OR ModeDevice
              OR ModeCharDevice OR ModeIrregular"

text \<open>
  A file tree as \<open>Lstat\<close> and \<open>readDirNames\<close> show it. \<open>File\<close> is anything that is not a
  directory: a regular file, or a symlink, device, pipe or socket when a type bit of its
  mode is set. A file has the bytes that reading it yields; its size is their number. A
  directory has the size the filesystem reports for it and its entries, in the order the
  filesystem keeps them. Modification times are in the tree although the code never
  reads them. The arguments are: \<open>File mode mtime content\<close> and
  \<open>Dir mode mtime size entries\<close>, an entry being a name and a node.
\<close>

datatype node =
    File "32 word" int string
  | Dir "32 word" int int "(string \<times> node) list"

record FileInfo =
  IsDir :: bool
  Mode :: "32 word"
  Size :: int
  ModTime :: int

fun info_of :: "node \<Rightarrow> FileInfo" where
  "info_of (File m t c) = \<lparr>IsDir = False, Mode = m, Size = int (length c), ModTime = t\<rparr>"
| "info_of (Dir m t s cs) = \<lparr>IsDir = True, Mode = m OR ModeDir, Size = s, ModTime = t\<rparr>"

fun content_of :: "node \<Rightarrow> string" where
  "content_of (File m t c) = c"
| "content_of (Dir m t s cs) = []"

text \<open>
  The operating system and the standard library, as far as this file calls them:
  \<open>Stat\<close> follows symlinks and \<open>Lstat\<close> does not; \<open>Join\<close> and \<open>Base\<close> are those of
  \<open>path/filepath\<close>; \<open>TempFile\<close> is the outcome of \<open>ioutil.TempFile("", "imgpkg-tar-image")\<close>,
  the name of the file it created. \<open>NewFileImage\<close> is defined in another file of the
  package. The model covers trees that can be read: \<open>readDirNames\<close>, \<open>Lstat\<close> of a
  directory's entry, \<open>os.Open\<close>, \<open>WriteHeader\<close> and \<open>io.Copy\<close> succeed.
\<close>

record FileImage =
  imagePath :: string
  isBundle :: bool

record os =
  Stat :: "string \<Rightarrow> err + node"
  Lstat :: "string \<Rightarrow> err + node"
  Join :: "string \<Rightarrow> string \<Rightarrow> string"
  Base :: "string \<Rightarrow> string"
  TempFile :: "err + string"
  NewFileImage :: "string \<Rightarrow> bool \<Rightarrow> err + FileImage"

subsection \<open>The tar writer\<close>

text \<open>
  \<open>tar.Header\<close>, the fields the code sets. \<open>ModTime\<close> counts from Go's zero
  \<open>time.Time{}\<close>, so the zero time is 0. The writer's output is the list of the headers
  written, each with the bytes copied after it; \<open>infoLog\<close> is the list of the lines
  written to it.
\<close>

definition TypeReg :: char where "TypeReg = CHR ''0''"
definition TypeDir :: char where "TypeDir = CHR ''5''"

record Header =
  hName :: string
  hSize :: int
  hMode :: int
  hModTime :: int
  hTypeflag :: char

record archive =
  tar :: "(Header \<times> string) list"
  infoLog :: "string list"

text \<open>
  What a call returns in place of \<open>nil\<close>: the sentinel \<open>filepath.SkipDir\<close>, any other
  error, or a panic on its way up the stack.
\<close>

datatype signal = SkipDir | Error err | Panic string

record TarImage =
  files :: "string list"
  excludePaths :: "string list"

subsection \<open>isExcluded, addDirToTar, addFileToTar\<close>

fun isExcludedLoop :: "string list \<Rightarrow> string \<Rightarrow> bool" where
  "isExcludedLoop [] relPath = False"
| "isExcludedLoop (path # paths) relPath =
     (if path = relPath then True else isExcludedLoop paths relPath)"

definition isExcluded :: "TarImage \<Rightarrow> string \<Rightarrow> bool" where
  "isExcluded i relPath = isExcludedLoop (excludePaths i) relPath"

definition addDirToTar ::
  "TarImage \<Rightarrow> string \<Rightarrow> FileInfo \<Rightarrow> archive \<Rightarrow> signal option \<times> archive" where
  "addDirToTar i relPath info out =
     (if isExcluded i relPath then (Some (Panic ''Unreachable''), out)
      else
        (let out1 = out\<lparr>infoLog := infoLog out @ [''dir: '' @ relPath @ ''\<newline>'']\<rparr>;
             header = \<lparr>hName = relPath, hSize = Size info, hMode = 448, hModTime = 0,
                       hTypeflag = TypeDir\<rparr>
         in (None, out1\<lparr>tar := tar out1 @ [(header, [])]\<rparr>)))"

text \<open>
  \<open>addFileToTar\<close>: \<open>content\<close> stands for what \<open>os.Open(fullPath)\<close> and \<open>io.Copy\<close> read.
  The modes are \<open>0700\<close> = 448 and \<open>0600\<close> = 384.
\<close>

definition addFileToTar ::
  "TarImage \<Rightarrow> string \<Rightarrow> string \<Rightarrow> FileInfo \<Rightarrow> archive \<Rightarrow> signal option \<times> archive" where
  "addFileToTar i content relPath info out =
     (if isExcluded i relPath then (None, out)
      else
        (let out1 = out\<lparr>infoLog := infoLog out @ [''file: '' @ relPath @ ''\<newline>'']\<rparr>;
             header = \<lparr>hName = relPath, hSize = Size info, hMode = 384, hModTime = 0,
                       hTypeflag = TypeReg\<rparr>
         in (None, out1\<lparr>tar := tar out1 @ [(header, content)]\<rparr>)))"

subsection \<open>The walk\<close>

text \<open>
  \<open>filepath.Rel(path, walkedPath)\<close> for the paths \<open>Walk\<close> hands to its callback: \<open>.\<close> for
  the root, and the names of the directory entries below it joined by \<open>/\<close>.
\<close>

fun relPathOf :: "string list \<Rightarrow> string" where
  "relPathOf [] = ''.''"
| "relPathOf [n] = n"
| "relPathOf (n # ns) = n @ ''/'' @ relPathOf ns"

text \<open>
  The callback given to \<open>filepath.Walk\<close> in \<open>createTarball\<close>. \<open>names\<close> are the names from
  the root to the walked entry, \<open>walkErr\<close> is the callback's parameter \<open>err\<close>.
\<close>

definition walkFn ::
  "TarImage \<Rightarrow> string \<Rightarrow> string list \<Rightarrow> node \<Rightarrow> err option \<Rightarrow> archive \<Rightarrow> signal option \<times> archive" where
  "walkFn i walkedPath names n walkErr out =
     (case walkErr of
        Some e \<Rightarrow> (Some (Error e), out)
      | None \<Rightarrow>
          (let relPath = relPathOf names; info = info_of n in
           if IsDir info then
             (if isExcluded i relPath then (Some SkipDir, out)
              else addDirToTar i relPath info out)
           else if Mode info AND ModeType \<noteq> 0 then
             (Some (Error (''Expected file '' @ quoted walkedPath @ '' to be a regular file'')), out)
           else addFileToTar i (content_of n) relPath info out))"

text \<open>
  \<open>filepath.Walk\<close> and its helper \<open>walk\<close>: the callback is called on a directory before its
  entries, the entries are visited in the lexical order of their names, \<open>SkipDir\<close> from a
  directory skips that directory, and any other error stops the walk.
\<close>

function walk ::
    "os \<Rightarrow> TarImage \<Rightarrow> string \<Rightarrow> string list \<Rightarrow> node \<Rightarrow> archive \<Rightarrow> signal option \<times> archive"
  and walkNames ::
    "os \<Rightarrow> TarImage \<Rightarrow> string \<Rightarrow> string list \<Rightarrow> (string \<times> node) list \<Rightarrow> archive \<Rightarrow>
     signal option \<times> archive" where
  "walk sys i p names (File m t c) out = walkFn i p names (File m t c) None out"
| "walk sys i p names (Dir m t s cs) out =
     (case walkFn i p names (Dir m t s cs) None out of
        (Some e, out1) \<Rightarrow> (Some e, out1)
      | (None, out1) \<Rightarrow> walkNames sys i p names (sort_key fst cs) out1)"
| "walkNames sys i p names [] out = (None, out)"
| "walkNames sys i p names (c # cs) out =
     (case walk sys i (Join sys p (fst c)) (names @ [fst c]) (snd c) out of
        (Some e, out1) \<Rightarrow>
          if \<not> IsDir (info_of (snd c)) \<or> e \<noteq> SkipDir then (Some e, out1)
          else walkNames sys i p names cs out1
      | (None, out1) \<Rightarrow> walkNames sys i p names cs out1)"
  by pat_completeness auto

lemma size_list_sort_key: "size_list f (sort_key g xs) = size_list f xs"
proof -
  have "size_list f ys = sum_mset (image_mset f (mset ys)) + size (mset ys)" for ys
    by (induction ys) auto
  then show ?thesis by simp
qed

termination walk
  by (relation "measure (\<lambda>x. case x of
          Inl (sys, i, p, names, n, out) \<Rightarrow> size n
        | Inr (sys, i, p, names, cs, out) \<Rightarrow> size_list (size_prod (\<lambda>x. 0) size) cs)")
     (auto simp: size_list_sort_key)

text \<open>
  \<open>Walk\<close> itself: when \<open>Lstat\<close> of the root fails the callback is called with that error
  and no \<open>FileInfo\<close> (the node passed here is not read); \<open>SkipDir\<close> from the root ends the
  walk without error.
\<close>

definition Walk :: "os \<Rightarrow> TarImage \<Rightarrow> string \<Rightarrow> archive \<Rightarrow> signal option \<times> archive" where
  "Walk sys i root out =
     (case (case Lstat sys root of
              Inl e \<Rightarrow> walkFn i root [] (File 0 0 []) (Some e) out
            | Inr n \<Rightarrow> walk sys i root [] n out) of
        (Some SkipDir, out1) \<Rightarrow> (None, out1)
      | (r, out1) \<Rightarrow> (r, out1))"

subsection \<open>createTarball and asFileImage\<close>

text \<open>
  \<open>fmt.Errorf(prefix + "%s", err)\<close>: the message of \<open>SkipDir\<close> is that of Go's
  \<open>filepath\<close>; a panic is not an error value and passes unchanged.
\<close>

fun wrapError :: "string \<Rightarrow> signal \<Rightarrow> signal" where
  "wrapError msg (Error e) = Error (msg @ e)"
| "wrapError msg SkipDir = Error (msg @ ''skip this directory'')"
| "wrapError msg (Panic s) = Panic s"

fun createTarball ::
  "os \<Rightarrow> TarImage \<Rightarrow> string list \<Rightarrow> archive \<Rightarrow> signal option \<times> archive" where
  "createTarball sys i [] out = (None, out)"
| "createTarball sys i (path # filePaths) out =
     (case Stat sys path of
        Inl e \<Rightarrow> (Some (Error e), out)
      | Inr n \<Rightarrow>
          if IsDir (info_of n) then
            (case Walk sys i path out of
               (Some e, out1) \<Rightarrow>
                 (Some (wrapError (''Adding file '' @ quoted path @ '' to tar: '') e), out1)
             | (None, out1) \<Rightarrow> createTarball sys i filePaths out1)
          else
            (case addFileToTar i (content_of n) (Base sys path) (info_of n) out of
               (Some e, out1) \<Rightarrow> (Some e, out1)
             | (None, out1) \<Rightarrow> createTarball sys i filePaths out1))"

text \<open>
  \<open>asFileImage\<close>. \<open>tmp\<close> maps the name of each temporary file to what has been written to
  it; \<open>os.Remove\<close> takes the name out. The tar writer starts on the empty file. A panic
  leaves the function before \<open>os.Remove\<close> is reached.
\<close>

definition asFileImage ::
  "os \<Rightarrow> TarImage \<Rightarrow> bool \<Rightarrow> (string \<rightharpoonup> (Header \<times> string) list) \<Rightarrow> string list \<Rightarrow>
   (signal + FileImage) \<times> (string \<rightharpoonup> (Header \<times> string) list) \<times> string list" where
  "asFileImage sys i bundleFlag tmp log =
     (case TempFile sys of
        Inl e \<Rightarrow> (Inl (Error e), tmp, log)
      | Inr tmpFile \<Rightarrow>
          (case createTarball sys i (files i) \<lparr>tar = [], infoLog = log\<rparr> of
             (Some (Panic s), out) \<Rightarrow> (Inl (Panic s), tmp(tmpFile \<mapsto> tar out), infoLog out)
           | (Some e, out) \<Rightarrow> (Inl e, tmp(tmpFile := None), infoLog out)
           | (None, out) \<Rightarrow>
               (case NewFileImage sys tmpFile bundleFlag of
                  Inl e \<Rightarrow> (Inl (Error e), tmp(tmpFile := None), infoLog out)
                | Inr fileImg \<Rightarrow> (Inr fileImg, tmp(tmpFile \<mapsto> tar out), infoLog out))))"

definition AsFileBundle ::
  "os \<Rightarrow> TarImage \<Rightarrow> (string \<rightharpoonup> (Header \<times> string) list) \<Rightarrow> string list \<Rightarrow>
   (signal + FileImage) \<times> (string \<rightharpoonup> (Header \<times> string) list) \<times> string list" where
  "AsFileBundle sys i = asFileImage sys i True"

definition AsFileImage ::
  "os \<Rightarrow> TarImage \<Rightarrow> (string \<rightharpoonup> (Header \<times> string) list) \<Rightarrow> string list \<Rightarrow>
   (signal + FileImage) \<times> (string \<rightharpoonup> (Header \<times> string) list) \<times> string list" where
  "AsFileImage sys i = asFileImage sys i False"

section \<open>Vocabulary of the statements about the pull command\<close>

text \<open>The events that change the filesystem.\<close>

fun changesFilesystem :: "event \<Rightarrow> bool" where
  "changesFilesystem (EvRemoveAll p) = True"
| "changesFilesystem (EvMkdirAll p) = True"
| "changesFilesystem (EvAsDirectory p) = True"
| "changesFilesystem (EvWriteFile p b m) = True"
| "changesFilesystem e = False"

text \<open>
  What one turn of the loop of \<open>rewriteImageLock\<close> finds for an entry of the lock
  document: the candidate reference cannot be built or parsed, or it is built and the
  registry has it, or it is built and \<open>registry.Generic\<close> returns an error.
  \<open>queried\<close> is the candidate reference that was looked up.
\<close>

datatype lookup_result = Malformed err | Found string | NotFound string

definition lookup ::
  "('fs, 'md, 'z) host \<Rightarrow> Reference \<Rightarrow> 'a ImageLocation_scheme \<Rightarrow> lookup_result" where
  "lookup h ref img =
     (case ImageWithRepository h (DigestRef img) (Context ref) of
        Inl e \<Rightarrow> Malformed e
      | Inr newURL \<Rightarrow>
          (case NewDigest h newURL of
             Inl e \<Rightarrow> Malformed e
           | Inr dref \<Rightarrow>
               (case Generic h dref of None \<Rightarrow> Found newURL | Some e \<Rightarrow> NotFound newURL)))"

fun isFound :: "lookup_result \<Rightarrow> bool" where
  "isFound (Found u) = True"
| "isFound r = False"

fun isNotFound :: "lookup_result \<Rightarrow> bool" where
  "isNotFound (NotFound u) = True"
| "isNotFound r = False"

fun isMalformed :: "lookup_result \<Rightarrow> bool" where
  "isMalformed (Malformed u) = True"
| "isMalformed r = False"

fun queried :: "lookup_result \<Rightarrow> string" where
  "queried (Found u) = u"
| "queried (NotFound u) = u"
| "queried (Malformed e) = []"

definition relocate :: "('fs, 'md, 'z) host \<Rightarrow> Reference \<Rightarrow> 'md ImageDesc \<Rightarrow> 'md ImageDesc" where
  "relocate h ref img =
     \<lparr>DigestRef = queried (lookup h ref img), OriginalTag = OriginalTag img,
      Name = Name img, Metadata = Metadata img\<rparr>"

definition locatingNotice :: string where
  "locatingNotice = ''Locating image lock file images...\<newline>''"

definition skipNotice :: string where
  "skipNotice = ''One or more images not found in bundle repo. Skipping lock file update\<newline>''"

definition updatingNotice :: string where
  "updatingNotice = ''All images found in bundle repo. Updating lock file\<newline>''"

definition multipleNotice :: string where
  "multipleNotice = ''Found multiple images, extracting first\<newline>''"

text \<open>
  Two worlds with the same filesystem and the same trace, whose ui lines are \<open>p\<close> and
  \<open>q\<close> followed by the same lines.
\<close>

definition sameButUi :: "string list \<Rightarrow> string list \<Rightarrow> 'fs world \<Rightarrow> 'fs world \<Rightarrow> bool" where
  "sameButUi p q w w' \<longleftrightarrow>
     fs w = fs w' \<and> trace w = trace w' \<and> (\<exists>x. ui w = p @ x \<and> ui w' = q @ x)"

text \<open>
  Two stretches of \<open>Run\<close>, named for the proofs: \<open>materialize\<close> is \<open>Run\<close> from
  \<open>os.RemoveAll\<close> to its end, \<open>pullImage\<close> is \<open>Run\<close> from \<open>img.Manifest()\<close> to its end.
  Lemma \<open>Run_pullImage\<close> below shows that \<open>Run\<close> is \<open>pullImage\<close> once the images are
  there.
\<close>

definition materialize ::
  "('fs, 'md, 'z) host \<Rightarrow> PullOptions \<Rightarrow> Reference \<Rightarrow> image \<Rightarrow> 'fs world \<Rightarrow> err option \<times> 'fs world" where
  "materialize h opts ref img w6 =
     (let w7 = record_event (EvRemoveAll (OutputPath opts)) w6;
          (r1, fs1) = RemoveAll h (OutputPath opts) (fs w7);
          w8 = w7\<lparr>fs := fs1\<rparr> in
      case r1 of
        Some e \<Rightarrow> (Some (''Removing output directory: '' @ e), w8)
      | None \<Rightarrow>
     (let w9 = record_event (EvMkdirAll (OutputPath opts)) w8;
          (r2, fs2) = MkdirAll h (OutputPath opts) 448 (fs w9);
          w10 = w9\<lparr>fs := fs2\<rparr> in
      case r2 of
        Some e \<Rightarrow> (Some (''Creating output directory: '' @ e), w10)
      | None \<Rightarrow>
     (let w11 = record_event (EvAsDirectory (OutputPath opts)) w10;
          (r3, fs3, lines) = AsDirectory h (OutputPath opts) img (fs w11);
          w12 = w11\<lparr>fs := fs3, ui := ui w11 @ lines\<rparr> in
      case r3 of
        Some e \<Rightarrow> (Some (''Extracting image into directory: '' @ e), w12)
      | None \<Rightarrow>
     if Bundle (BundleFlags opts) \<noteq> []
     then
       (case rewriteImageLock h opts ref w12 of
          (Some e, w13) \<Rightarrow> (Some (''Rewriting image lock file: '' @ e), w13)
        | (None, w13) \<Rightarrow> (None, w13))
     else (None, w12))))"

definition pullImage ::
  "('fs, 'md, 'z) host \<Rightarrow> PullOptions \<Rightarrow> Reference \<Rightarrow> image \<Rightarrow> 'fs world \<Rightarrow> err option \<times> 'fs world" where
  "pullImage h opts ref img w3 =
     (let w4 = record_event EvManifest w3 in
      case Manifest img of
        Inl e \<Rightarrow> (Some (''Getting image manifest: '' @ e), w4)
      | Inr manifest \<Rightarrow>
     (case checkIntent h opts manifest of
        Some e \<Rightarrow> (Some e, w4)
      | None \<Rightarrow>
     (let w5 = record_event EvDigest w4 in
      case Digest img of
        Inl e \<Rightarrow> (Some (''Getting image digest: '' @ e), w5)
      | Inr digest \<Rightarrow>
     (let w6 = BeginLinef
                 (''Pulling image '' @ quoted (Context ref @ ''@'' @ digest) @ ''\<newline>'') w5 in
      if OutputPath opts = ''/'' \<or> OutputPath opts = ''.'' \<or> OutputPath opts = ''..''
      then (Some ''Disallowed output directory (trying to avoid accidental deletion)'', w6)
      else materialize h opts ref img w6))))"

section \<open>Vocabulary of the statements about the tar image\<close>

text \<open>
  Names of directory entries hold no separator. \<open>wellFormedInput\<close> says so of the tree at
  an input path, and of the base name of an input that is not a directory.
\<close>

fun wellNamed :: "node \<Rightarrow> bool"
  and wellNamedEntries :: "(string \<times> node) list \<Rightarrow> bool" where
  "wellNamed (File m t c) = True"
| "wellNamed (Dir m t s cs) = wellNamedEntries cs"
| "wellNamedEntries [] = True"
| "wellNamedEntries ((name, n) # cs) =
     (CHR ''/'' \<notin> set name \<and> wellNamed n \<and> wellNamedEntries cs)"

definition wellFormedInput :: "os \<Rightarrow> string \<Rightarrow> bool" where
  "wellFormedInput sys p =
     ((case Lstat sys p of Inl e \<Rightarrow> True | Inr n \<Rightarrow> wellNamed n) \<and>
      (case Stat sys p of
         Inl e \<Rightarrow> True
       | Inr n \<Rightarrow> IsDir (info_of n) \<or> CHR ''/'' \<notin> set (Base sys p)))"

text \<open>
  The logical tree: the names, the kinds and the contents. It is what is left of a tree
  when modification times, the mode bits other than the type bits, the size the
  filesystem reports for a directory and the order in which a directory lists its
  entries are forgotten. Two trees are the same logical tree when \<open>logical\<close> maps them to
  the same tree; two systems show the same logical trees when they do so at every path.
\<close>

function logical :: "node \<Rightarrow> node"
  and logicalEntries :: "(string \<times> node) list \<Rightarrow> (string \<times> node) list" where
  "logical (File m t c) = File (m AND ModeType) 0 c"
| "logical (Dir m t s cs) = Dir 0 0 0 (logicalEntries (sort_key fst cs))"
| "logicalEntries [] = []"
| "logicalEntries (c # cs) = (fst c, logical (snd c)) # logicalEntries cs"
  by pat_completeness auto

termination logical
  by (relation "measure (\<lambda>x. case x of
          Inl n \<Rightarrow> size n
        | Inr cs \<Rightarrow> size_list (size_prod (\<lambda>x. 0) size) cs)")
     (auto simp: size_list_sort_key)

definition sameTrees :: "os \<Rightarrow> os \<Rightarrow> bool" where
  "sameTrees sys sys' \<longleftrightarrow>
     (\<forall>p. rel_sum (=) (\<lambda>n n'. logical n = logical n') (Stat sys p) (Stat sys' p)) \<and>
     (\<forall>p. rel_sum (=) (\<lambda>n n'. logical n = logical n') (Lstat sys p) (Lstat sys' p)) \<and>
     Join sys' = Join sys \<and> Base sys' = Base sys"

text \<open>
  What the code reads of a tree: the logical tree and, of each directory, the size the
  filesystem reports for it (\<open>info.Size()\<close> in \<open>addDirToTar\<close>).
\<close>

function observed :: "node \<Rightarrow> node"
  and observedEntries :: "(string \<times> node) list \<Rightarrow> (string \<times> node) list" where
  "observed (File m t c) = File (m AND ModeType) 0 c"
| "observed (Dir m t s cs) = Dir 0 0 s (observedEntries (sort_key fst cs))"
| "observedEntries [] = []"
| "observedEntries (c # cs) = (fst c, observed (snd c)) # observedEntries cs"
  by pat_completeness auto

termination observed
  by (relation "measure (\<lambda>x. case x of
          Inl n \<Rightarrow> size n
        | Inr cs \<Rightarrow> size_list (size_prod (\<lambda>x. 0) size) cs)")
     (auto simp: size_list_sort_key)

definition sameObserved :: "os \<Rightarrow> os \<Rightarrow> bool" where
  "sameObserved sys sys' \<longleftrightarrow>
     (\<forall>p. rel_sum (=) (\<lambda>n n'. observed n = observed n') (Stat sys p) (Stat sys' p)) \<and>
     (\<forall>p. rel_sum (=) (\<lambda>n n'. observed n = observed n') (Lstat sys p) (Lstat sys' p)) \<and>
     Join sys' = Join sys \<and> Base sys' = Base sys"

text \<open>
  The entries that are neither regular files nor directories and that the walk of a tree
  reaches, by their walked paths and in the order of the walk: the walk does not go into
  a directory whose relative path is excluded.
\<close>

function specials :: "os \<Rightarrow> TarImage \<Rightarrow> string \<Rightarrow> string list \<Rightarrow> node \<Rightarrow> string list"
  and specialsIn ::
    "os \<Rightarrow> TarImage \<Rightarrow> string \<Rightarrow> string list \<Rightarrow> (string \<times> node) list \<Rightarrow> string list" where
  "specials sys i p names (File m t c) = (if m AND ModeType \<noteq> 0 then [p] else [])"
| "specials sys i p names (Dir m t s cs) =
     (if isExcluded i (relPathOf names) then []
      else specialsIn sys i p names (sort_key fst cs))"
| "specialsIn sys i p names [] = []"
| "specialsIn sys i p names (c # cs) =
     specials sys i (Join sys p (fst c)) (names @ [fst c]) (snd c) @ specialsIn sys i p names cs"
  by pat_completeness auto

termination specials
  by (relation "measure (\<lambda>x. case x of
          Inl (sys, i, p, names, n) \<Rightarrow> size n
        | Inr (sys, i, p, names, cs) \<Rightarrow> size_list (size_prod (\<lambda>x. 0) size) cs)")
     (auto simp: size_list_sort_key)

definition expectedRegular :: "string \<Rightarrow> string" where
  "expectedRegular p = ''Expected file '' @ quoted p @ '' to be a regular file''"

text \<open>
  An entry emitted under the walked entry \<open>names\<close>: its name is the relative path of
  \<open>names\<close> extended by names without separator, and no relative path from \<open>names\<close> down
  to the entry is excluded.
\<close>

definition emittedUnder :: "TarImage \<Rightarrow> string list \<Rightarrow> Header \<times> string \<Rightarrow> bool" where
  "emittedUnder i names e \<longleftrightarrow>
     (\<exists>suffix. hName (fst e) = relPathOf (names @ suffix) \<and>
        list_all (\<lambda>x. CHR ''/'' \<notin> set x) suffix \<and>
        (\<forall>k\<le>length suffix. \<not> isExcluded i (relPathOf (names @ take k suffix))))"

text \<open>
  An entry with the fixed metadata: the zero time, and either the directory flag with
  mode \<open>0700\<close> and no content, or the regular-file flag with mode \<open>0600\<close> and the size of
  its content. The size of a directory entry is not fixed by it.
\<close>

definition normalEntry :: "Header \<times> string \<Rightarrow> bool" where
  "normalEntry e \<longleftrightarrow>
     hModTime (fst e) = 0 \<and>
     (hTypeflag (fst e) = TypeDir \<and> hMode (fst e) = 448 \<and> snd e = [] \<or>
      hTypeflag (fst e) = TypeReg \<and> hMode (fst e) = 384 \<and> hSize (fst e) = int (length (snd e)))"

text \<open>
  An archive with the size of every directory entry set to zero: what is left of it when
  the sizes that the filesystem reports for directories are forgotten.
\<close>

definition eraseDirSize :: "Header \<times> string \<Rightarrow> Header \<times> string" where
  "eraseDirSize e =
     (if hTypeflag (fst e) = TypeDir then ((fst e)\<lparr>hSize := 0\<rparr>, snd e) else e)"

definition eraseDirSizes :: "archive \<Rightarrow> archive" where
  "eraseDirSizes out = out\<lparr>tar := map eraseDirSize (tar out)\<rparr>"

section \<open>A small host for the examples\<close>

text \<open>
  A host whose filesystem is a list of files with their contents, whose registry holds
  one bundle, and whose lock document has two entries. The examples below run the
  command on it.
\<close>

definition imgA :: "string ImageDesc" where
  "imgA = \<lparr>DigestRef = ''src/a@sha256:aa'', OriginalTag = ''1.0'', Name = ''a'', Metadata = ''ma''\<rparr>"

definition imgB :: "string ImageDesc" where
  "imgB = \<lparr>DigestRef = ''src/b@sha256:bb'', OriginalTag = ''2.0'', Name = ''b'', Metadata = ''mb''\<rparr>"

definition demoLock :: "string ImageLock" where
  "demoLock = \<lparr>Spec = \<lparr>Images = [imgA, imgB]\<rparr>\<rparr>"

definition emptyLock :: "string ImageLock" where
  "emptyLock = \<lparr>Spec = \<lparr>Images = []\<rparr>\<rparr>"

definition parseRef :: "string \<Rightarrow> Reference" where
  "parseRef s = \<lparr>Context = takeWhile (\<lambda>c. c \<noteq> CHR ''@'') s,
                 Identifier = dropWhile (\<lambda>c. c \<noteq> CHR ''@'') s\<rparr>"

definition annotated :: "string \<Rightarrow> string \<Rightarrow> image" where
  "annotated k v = \<lparr>Manifest = Inr \<lparr>Annotations = [k \<mapsto> v]\<rparr>, Digest = Inr ''sha256:00''\<rparr>"

definition plainImage :: image where
  "plainImage = \<lparr>Manifest = Inr \<lparr>Annotations = Map.empty\<rparr>, Digest = Inr ''sha256:11''\<rparr>"

definition demoHost :: "((string \<times> string) list, string, unit) host" where
  "demoHost =
     \<lparr>BundleAnnotation = ''dev.carvel.imgpkg.bundle'',
      ReadFile = (\<lambda>files p. case map_of files p of None \<Rightarrow> Inl ''no such file'' | Some b \<Rightarrow> Inr b),
      UnmarshalBundleLock = (\<lambda>b. Inr b),
      ParseReference = (\<lambda>s. Inr (parseRef s)),
      RegistryImages = (\<lambda>r. Inr [annotated ''dev.carvel.imgpkg.bundle'' ''true'']),
      RemoveAll = (\<lambda>p files. (None, filter (\<lambda>f. \<not> prefix p (fst f)) files)),
      MkdirAll = (\<lambda>p m files. (None, files)),
      AsDirectory = (\<lambda>p img files.
         (None, (p @ ''/.imgpkg/images.yml'', ''images'') # files, [''Extracting layer\<newline>''])),
      imageLockPath = (\<lambda>out. out @ ''/.imgpkg/images.yml''),
      ReadImageLockFile = (\<lambda>files p.
         case map_of files p of None \<Rightarrow> Inl ''no such file'' | Some b \<Rightarrow> Inr demoLock),
      ImageWithRepository = (\<lambda>img repo.
         if CHR ''@'' \<in> set img then Inr (repo @ dropWhile (\<lambda>c. c \<noteq> CHR ''@'') img)
         else Inl (''Parsing image URL: '' @ img)),
      NewDigest = (\<lambda>s. if CHR ''@'' \<in> set s then Inr (parseRef s) else Inl ''missing digest''),
      Generic = (\<lambda>r. None),
      Marshal = (\<lambda>l. Inr (concat (map (\<lambda>d. DigestRef d @ ''\<newline>'') (Images (Spec l))))),
      WriteFile = (\<lambda>p b m files. (None, (p, b) # filter (\<lambda>f. fst f \<noteq> p) files))\<rparr>"

text \<open>The same host with a registry that lacks the second image of the lock document.\<close>

definition partialHost :: "((string \<times> string) list, string, unit) host" where
  "partialHost =
     demoHost\<lparr>Generic := (\<lambda>r. if Identifier r = ''@sha256:bb'' then Some ''NOT_FOUND'' else None)\<rparr>"

definition demoWorld :: "(string \<times> string) list world" where
  "demoWorld = \<lparr>fs = [(''out/.imgpkg/images.yml'', ''images'')], ui = [], trace = []\<rparr>"

definition bundleOpts :: PullOptions where
  "bundleOpts = \<lparr>ImageFlags = \<lparr>Image = []\<rparr>, BundleFlags = \<lparr>Bundle = ''reg/app''\<rparr>,
                 OutputPath = ''out'', LockPath = []\<rparr>"

definition imageOpts :: PullOptions where
  "imageOpts = \<lparr>ImageFlags = \<lparr>Image = ''reg/app''\<rparr>, BundleFlags = \<lparr>Bundle = []\<rparr>,
                OutputPath = ''out'', LockPath = []\<rparr>"

section \<open>A small file tree for the examples\<close>

text \<open>
  A directory \<open>src\<close> with a file, a subdirectory and a directory \<open>skip\<close> that holds a
  symlink; a second copy of it with other times, other permissions and another listing
  order; a third copy that differs from the first only in the sizes the filesystem
  reports for the directories; and a file \<open>docs/notes.txt\<close>.
\<close>

definition demoTree :: node where
  "demoTree =
     Dir 493 100 4096
       [(''b.txt'', File 420 200 ''bb''),
        (''a'', Dir 493 300 4096 [(''x'', File 384 400 ''xyz'')]),
        (''skip'', Dir 448 500 4096 [(''link'', File (ModeSymlink OR 511) 600 ''b.txt'')])]"

definition demoTree' :: node where
  "demoTree' =
     Dir 448 111 4096
       [(''skip'', Dir 493 555 4096 [(''link'', File (ModeSymlink OR 511) 666 ''b.txt'')]),
        (''a'', Dir 457 333 4096 [(''x'', File 416 444 ''xyz'')]),
        (''b.txt'', File 384 222 ''bb'')]"

definition demoTreeSmall :: node where
  "demoTreeSmall =
     Dir 493 100 60
       [(''b.txt'', File 420 200 ''bb''),
        (''a'', Dir 493 300 60 [(''x'', File 384 400 ''xyz'')]),
        (''skip'', Dir 448 500 60 [(''link'', File (ModeSymlink OR 511) 600 ''b.txt'')])]"

definition baseName :: "string \<Rightarrow> string" where
  "baseName p = rev (takeWhile (\<lambda>c. c \<noteq> CHR ''/'') (rev p))"

definition demoOs :: os where
  "demoOs =
     \<lparr>Stat = (\<lambda>p. if p = ''src'' then Inr demoTree
                  else if p = ''docs/notes.txt'' then Inr (File 420 700 ''hello'')
                  else Inl ''no such file or directory''),
      Lstat = (\<lambda>p. if p = ''src'' then Inr demoTree
                   else if p = ''docs/notes.txt'' then Inr (File 420 700 ''hello'')
                   else Inl ''no such file or directory''),
      Join = (\<lambda>d n. d @ ''/'' @ n),
      Base = baseName,
      TempFile = Inr ''/tmp/imgpkg-tar-image1'',
      NewFileImage = (\<lambda>p b. Inr \<lparr>imagePath = p, isBundle = b\<rparr>)\<rparr>"

definition demoOs' :: os where
  "demoOs' = demoOs\<lparr>Stat := (\<lambda>p. if p = ''src'' then Inr demoTree' else Stat demoOs p),
                     Lstat := (\<lambda>p. if p = ''src'' then Inr demoTree' else Lstat demoOs p)\<rparr>"

definition demoOsSmall :: os where
  "demoOsSmall =
     demoOs\<lparr>Stat := (\<lambda>p. if p = ''src'' then Inr demoTreeSmall else Stat demoOs p),
            Lstat := (\<lambda>p. if p = ''src'' then Inr demoTreeSmall else Lstat demoOs p)\<rparr>"

definition demoImage :: TarImage where
  "demoImage = \<lparr>files = [''src'', ''docs/notes.txt''], excludePaths = [''skip'']\<rparr>"

definition emptyArchive :: archive where
  "emptyArchive = \<lparr>tar = [], infoLog = []\<rparr>"

section \<open>Properties of the pull command\<close>

subsection \<open>getRefFromFlags\<close>

lemma pickRef_two:
  "2 \<le> length (filter (\<lambda>s. s \<noteq> []) [a, b, c]) \<Longrightarrow>
   pickRef [] [a, b, c] = Inl ''Expected only one of image, bundle, or lock''"
  by (auto split: if_splits)

lemma getRefFromFlags_frame:
  "getRefFromFlags h opts w = (r, w1) \<Longrightarrow>
   fs w1 = fs w \<and> ui w1 = ui w \<and>
   (\<exists>evs. trace w1 = trace w @ evs \<and> list_all (\<lambda>e. \<not> changesFilesystem e) evs)"
  by (auto simp: getRefFromFlags_def Let_def record_event_def split: sum.splits if_splits)

subsection \<open>The loop of rewriteImageLock\<close>

lemma locate_found:
  "isFound (lookup h ref img) \<Longrightarrow>
   locate h ref (img # imgs) acc w =
   locate h ref imgs (acc @ [relocate h ref img])
     (w\<lparr>trace := trace w @ [EvGeneric (queried (lookup h ref img))]\<rparr>)"
  by (auto simp: lookup_def relocate_def record_event_def Let_def split: sum.splits option.splits)

lemma locate_not_found:
  "isNotFound (lookup h ref img) \<Longrightarrow>
   locate h ref (img # imgs) acc w =
   (Return None, w\<lparr>ui := ui w @ [skipNotice], trace := trace w @ [EvGeneric (queried (lookup h ref img))]\<rparr>)"
  by (auto simp: lookup_def skipNotice_def record_event_def BeginLinef_def Let_def split: sum.splits option.splits)

lemma locate_malformed:
  "isMalformed (lookup h ref img) \<Longrightarrow> \<exists>e. locate h ref (img # imgs) acc w = (Return (Some e), w)"
  by (auto simp: lookup_def Let_def split: sum.splits option.splits)

lemma locate_all_found:
  "list_all (\<lambda>x. isFound (lookup h ref x)) xs \<Longrightarrow>
   locate h ref (xs @ ys) acc w =
   locate h ref ys (acc @ map (relocate h ref) xs)
     (w\<lparr>trace := trace w @ map (\<lambda>x. EvGeneric (queried (lookup h ref x))) xs\<rparr>)"
proof (induction xs arbitrary: acc w)
  case Nil
  then show ?case by simp
next
  case (Cons x xs)
  then show ?case by (simp add: locate_found del: locate.simps)
qed

lemma locate_abort:
  "list_all (\<lambda>x. \<not> isMalformed (lookup h ref x)) xs \<Longrightarrow> isNotFound (lookup h ref x) \<Longrightarrow>
   \<exists>n\<le>length xs. isNotFound (lookup h ref ((xs @ [x]) ! n)) \<and>
     locate h ref (xs @ x # ys) acc w =
       (Return None,
        w\<lparr>ui := ui w @ [skipNotice],
          trace := trace w @ map (\<lambda>x. EvGeneric (queried (lookup h ref x))) (take (Suc n) (xs @ [x]))\<rparr>)"
proof (induction xs arbitrary: acc w)
  case Nil
  then show ?case by (simp add: locate_not_found del: locate.simps)
next
  case (Cons a xs)
  show ?case
  proof (cases "lookup h ref a")
    case (Malformed e)
    with Cons.prems show ?thesis by simp
  next
    case (NotFound u)
    then have "isNotFound (lookup h ref a)" by simp
    then have "locate h ref ((a # xs) @ x # ys) acc w =
       (Return None, w\<lparr>ui := ui w @ [skipNotice], trace := trace w @ [EvGeneric (queried (lookup h ref a))]\<rparr>)"
      by (simp add: locate_not_found del: locate.simps)
    then show ?thesis using NotFound
      by (intro exI[of _ 0]) simp
  next
    case (Found u)
    then have f: "isFound (lookup h ref a)" by simp
    from Cons.prems have "list_all (\<lambda>x. \<not> isMalformed (lookup h ref x)) xs" by simp
    from Cons.IH[OF this Cons.prems(2), of "acc @ [relocate h ref a]"
        "w\<lparr>trace := trace w @ [EvGeneric (queried (lookup h ref a))]\<rparr>"]
    obtain n where n: "n \<le> length xs" "isNotFound (lookup h ref ((xs @ [x]) ! n))"
      "locate h ref (xs @ x # ys) (acc @ [relocate h ref a])
         (w\<lparr>trace := trace w @ [EvGeneric (queried (lookup h ref a))]\<rparr>) =
       (Return None,
        w\<lparr>ui := ui w @ [skipNotice],
          trace := trace w @ EvGeneric (queried (lookup h ref a)) #
             map (\<lambda>x. EvGeneric (queried (lookup h ref x))) (take (Suc n) (xs @ [x]))\<rparr>)"
      by auto
    show ?thesis
      using n f by (intro exI[of _ "Suc n"]) (simp add: locate_found del: locate.simps)
  qed
qed

lemma locate_finished_iff:
  "locate h ref imgs acc w = (Finished xs, w') \<Longrightarrow> list_all (\<lambda>x. isFound (lookup h ref x)) imgs"
proof (induction imgs arbitrary: acc w)
  case Nil
  then show ?case by simp
next
  case (Cons a imgs)
  show ?case
  proof (cases "lookup h ref a")
    case (Malformed e)
    then have "isMalformed (lookup h ref a)" by simp
    from locate_malformed[OF this, of imgs acc w] Cons.prems show ?thesis by auto
  next
    case (NotFound u)
    then have "isNotFound (lookup h ref a)" by simp
    from locate_not_found[OF this, of imgs acc w] Cons.prems show ?thesis by auto
  next
    case (Found u)
    then have f: "isFound (lookup h ref a)" by simp
    with Cons.prems Cons.IH show ?thesis by (auto simp add: locate_found simp del: locate.simps)
  qed
qed

lemma locate_frame:
  "locate h ref imgs acc w = (r, w') \<Longrightarrow> fs w' = fs w \<and>
     (\<exists>evs. trace w' = trace w @ evs \<and> list_all (\<lambda>e. \<exists>u. e = EvGeneric u) evs)"
proof (induction imgs arbitrary: acc w)
  case Nil
  then show ?case by simp
next
  case (Cons a imgs)
  show ?case
  proof (cases "lookup h ref a")
    case (Malformed e)
    then have "isMalformed (lookup h ref a)" by simp
    from locate_malformed[OF this, of imgs acc w] Cons.prems show ?thesis by auto
  next
    case (NotFound u)
    then have "isNotFound (lookup h ref a)" by simp
    from locate_not_found[OF this, of imgs acc w] Cons.prems show ?thesis by auto
  next
    case (Found u)
    then have f: "isFound (lookup h ref a)" by simp
    from Cons.prems have "locate h ref imgs (acc @ [relocate h ref a])
     (w\<lparr>trace := trace w @ [EvGeneric (queried (lookup h ref a))]\<rparr>) = (r, w')"
      by (simp add: locate_found[OF f] del: locate.simps)
    from Cons.IH[OF this] show ?thesis by auto
  qed
qed


subsection \<open>rewriteImageLock\<close>

lemma rewriteImageLock_locate:
  assumes "ReadImageLockFile h (fs w) (imageLockPath h (OutputPath opts)) = Inr lockFile"
    and "Images (Spec lockFile) \<noteq> []"
  shows "rewriteImageLock h opts ref w =
     (let P = imageLockPath h (OutputPath opts) in
      case locate h ref (Images (Spec lockFile)) []
             (w\<lparr>ui := ui w @ [locatingNotice], trace := trace w @ [EvReadImageLockFile P]\<rparr>) of
        (Return r, w3) \<Rightarrow> (r, w3)
      | (Finished newImgDescs, w3) \<Rightarrow>
          (case Marshal h (lockFile\<lparr>Spec := (Spec lockFile)\<lparr>Images := newImgDescs\<rparr>\<rparr>) of
             Inl e \<Rightarrow> (Some (''Marshalling image lock file: '' @ e), w3)
           | Inr bytes \<Rightarrow>
               (fst (WriteFile h P bytes 600 (fs w3)),
                w3\<lparr>fs := snd (WriteFile h P bytes 600 (fs w3)),
                   ui := ui w3 @ [updatingNotice],
                   trace := trace w3 @ [EvWriteFile P bytes 600]\<rparr>)))"
proof -
  let ?P = "imageLockPath h (OutputPath opts)"
  let ?w1 = "record_event (EvReadImageLockFile ?P) w"
  let ?w2 = "w\<lparr>ui := ui w @ [locatingNotice], trace := trace w @ [EvReadImageLockFile ?P]\<rparr>"
  have w2: "BeginLinef ''Locating image lock file images...\<newline>'' ?w1 = ?w2"
    by (simp add: BeginLinef_def record_event_def locatingNotice_def)
  have f1: "fs ?w1 = fs w" by (simp add: record_event_def)
  obtain res w3 where l: "locate h ref (Images (Spec lockFile)) [] ?w2 = (res, w3)"
    by (cases "locate h ref (Images (Spec lockFile)) [] ?w2")
  have step: "rewriteImageLock h opts ref w =
      (case res of
         Return r \<Rightarrow> (r, w3)
       | Finished newImgDescs \<Rightarrow>
          (case Marshal h (lockFile\<lparr>Spec := (Spec lockFile)\<lparr>Images := newImgDescs\<rparr>\<rparr>) of
             Inl e \<Rightarrow> (Some (''Marshalling image lock file: '' @ e), w3)
           | Inr imgLockBytes \<Rightarrow>
               (let w4 = BeginLinef
                           ''All images found in bundle repo. Updating lock file\<newline>'' w3;
                    w5 = record_event (EvWriteFile ?P imgLockBytes 600) w4;
                    (r, fs') = WriteFile h ?P imgLockBytes 600 (fs w5)
                in (r, w5\<lparr>fs := fs'\<rparr>))))"
    unfolding rewriteImageLock_def Let_def f1 w2 using assms l by simp
  show ?thesis
  proof (cases res)
    case (Return r)
    then show ?thesis unfolding step using l by (simp add: Let_def)
  next
    case (Finished xs)
    show ?thesis
    proof (cases "Marshal h (lockFile\<lparr>Spec := (Spec lockFile)\<lparr>Images := xs\<rparr>\<rparr>)")
      case (Inl e)
      then show ?thesis unfolding step using l Finished by (simp add: Let_def)
    next
      case (Inr bytes)
      then show ?thesis unfolding step using l Finished
        by (simp add: Let_def BeginLinef_def record_event_def updatingNotice_def
            split: prod.splits)
    qed
  qed
qed

lemma relocate_found:
  "isFound (lookup h ref x) \<Longrightarrow>
   lookup h ref x = Found (DigestRef (relocate h ref x)) \<and>
   OriginalTag (relocate h ref x) = OriginalTag x \<and>
   Name (relocate h ref x) = Name x \<and> Metadata (relocate h ref x) = Metadata x"
  by (cases "lookup h ref x") (simp_all add: relocate_def)

lemma relocate_all_found:
  "list_all (\<lambda>x. isFound (lookup h ref x)) imgs \<Longrightarrow>
   list_all2 (\<lambda>old new. lookup h ref old = Found (DigestRef new) \<and>
        OriginalTag new = OriginalTag old \<and> Name new = Name old \<and> Metadata new = Metadata old)
     imgs (map (relocate h ref) imgs)"
  by (induction imgs) (simp_all add: relocate_found)


subsection \<open>Worlds that differ in their ui lines only\<close>




lemma sameButUi_lines:
  "sameButUi p q w w' \<Longrightarrow> sameButUi p q (w\<lparr>ui := ui w @ ls\<rparr>) (w'\<lparr>ui := ui w' @ ls\<rparr>)"
  by (auto simp: sameButUi_def)











subsection \<open>Run\<close>

lemma Run_pullImage:
  assumes "getRefFromFlags h opts w = (Inr inputRef, w1)"
    and "ParseReference h inputRef = Inr ref"
    and "RegistryImages h ref = Inr (img # rest)"
  shows "Run h opts w =
     pullImage h opts ref img
       (if rest \<noteq> [] then BeginLinef multipleNotice (record_event (EvImages inputRef) w1)
        else record_event (EvImages inputRef) w1)"
  using assms unfolding Run_def pullImage_def materialize_def multipleNotice_def
  by (simp add: Let_def)



lemma materialize_error:
  "fst (materialize h opts ref img w) = Some e \<Longrightarrow>
   take 3 e \<in> {''Rem'', ''Cre'', ''Ext'', ''Rew''}"
  unfolding materialize_def
  by (auto simp: Let_def split: prod.splits option.splits if_splits)

lemma pullImage_error:
  assumes "Manifest img = Inr m" and "checkIntent h opts m = None"
    and "fst (pullImage h opts ref img w) = Some e"
  shows "take 3 e \<in> {''Get'', ''Dis'', ''Rem'', ''Cre'', ''Ext'', ''Rew''}"
  using assms materialize_error[of h opts ref img _ e] unfolding pullImage_def
  by (auto simp: Let_def split: sum.splits if_splits)

lemma pullImage_mismatch:
  assumes "Manifest img = Inr m" and "checkIntent h opts m = Some e"
  shows "pullImage h opts ref img w = (Some e, record_event EvManifest w)"
  using assms by (simp add: pullImage_def Let_def)

lemma checkIntent_cases:
  "checkIntent h opts m =
     (if Image (ImageFlags opts) \<noteq> [] \<and> Annotations m (BundleAnnotation h) \<noteq> None
      then Some ''Expected bundle flag when pulling a bundle, please use -b instead of --image''
      else if Image (ImageFlags opts) = [] \<and> Annotations m (BundleAnnotation h) \<noteq> Some ''true''
      then Some ''Expected image flag when pulling an image or index, please use --image instead of -b''
      else None)"
  by (auto simp: checkIntent_def has_annotation_def annotation_def split: option.splits)

lemma Run_disallowed:
  assumes "OutputPath opts = ''/'' \<or> OutputPath opts = ''.'' \<or> OutputPath opts = ''..''"
  shows "(\<exists>e. fst (Run h opts w) = Some e) \<and> fs (snd (Run h opts w)) = fs w \<and>
         (\<exists>evs. trace (snd (Run h opts w)) = trace w @ evs \<and>
                list_all (\<lambda>e. \<not> changesFilesystem e) evs)"
proof -
  obtain r w1 where g: "getRefFromFlags h opts w = (r, w1)"
    by (cases "getRefFromFlags h opts w")
  from getRefFromFlags_frame[OF g] obtain evs where
    f: "fs w1 = fs w" and t: "trace w1 = trace w @ evs"
    and n: "list_all (\<lambda>e. \<not> changesFilesystem e) evs"
    by blast
  show ?thesis using assms g f t n
    by (auto simp: Run_def Let_def record_event_def BeginLinef_def
        split: sum.splits option.splits)
qed

lemma Run_disallowed_usage:
  assumes "OutputPath opts = ''/'' \<or> OutputPath opts = ''.'' \<or> OutputPath opts = ''..''"
    and "getRefFromFlags h opts w = (Inr inputRef, w1)"
    and "ParseReference h inputRef = Inr ref"
    and "RegistryImages h ref = Inr (img # rest)"
    and "Manifest img = Inr m" and "checkIntent h opts m = None" and "Digest img = Inr d"
  shows "fst (Run h opts w) =
           Some ''Disallowed output directory (trying to avoid accidental deletion)''"
  unfolding Run_pullImage[OF assms(2-4)] pullImage_def using assms(1,5-7)
  by (auto simp: Let_def)

lemmas demo_defs = demoHost_def partialHost_def demoWorld_def bundleOpts_def imageOpts_def
  demoLock_def emptyLock_def imgA_def imgB_def parseRef_def annotated_def plainImage_def

lemmas run_defs = Run_def getRefFromFlags_def rewriteImageLock_def checkIntent_def
  annotation_def has_annotation_def record_event_def BeginLinef_def quoted_def Let_def

section \<open>The claims about the pull command\<close>

text \<open>
  Claim C1 (rewrite is all-or-nothing). The lock document has been read and has the
  entries \<open>imgs\<close>, at least one.
  \<^item> If the candidate reference of entry \<open>k\<close> is looked up by \<open>registry.Generic\<close> and not
    found (the candidates of the entries before it could be built), then
    \<open>rewriteImageLock\<close> returns \<open>nil\<close>; the filesystem is the one it started with; the ui
    receives the progress line and then the one notice that the update is skipped; and
    the registry was asked for the candidates of the entries up to the first one not
    found, which is entry \<open>k\<close> or an earlier one, and for nothing after it.
  \<^item> If every entry is found, the document handed to \<open>yaml.Marshal\<close> has, entry by entry,
    the candidate reference as \<open>DigestRef\<close> and the original tag, name and metadata; its
    bytes are written to the path the document was read from, after all lookups.
  \<^item> If some entry is not found, nothing is written: the filesystem is unchanged and no
    event of the run changes it.
\<close>

theorem rewrite_all_or_nothing:
  assumes "ReadImageLockFile h (fs w) (imageLockPath h (OutputPath opts)) = Inr lockFile"
    and "Images (Spec lockFile) = imgs" and "imgs \<noteq> []"
  shows
   "(\<forall>k<length imgs.
       list_all (\<lambda>x. \<not> isMalformed (lookup h ref x)) (take k imgs) \<and>
       isNotFound (lookup h ref (imgs ! k)) \<longrightarrow>
       (\<exists>n\<le>k. isNotFound (lookup h ref (imgs ! n)) \<and>
          rewriteImageLock h opts ref w =
            (None,
             w\<lparr>ui := ui w @ [''Locating image lock file images...\<newline>'',
                   ''One or more images not found in bundle repo. Skipping lock file update\<newline>''],
               trace := trace w @ EvReadImageLockFile (imageLockPath h (OutputPath opts)) #
                   map (\<lambda>x. EvGeneric (queried (lookup h ref x))) (take (Suc n) imgs)\<rparr>))) \<and>
    (list_all (\<lambda>x. isFound (lookup h ref x)) imgs \<longrightarrow>
       (\<exists>newImgs.
          list_all2 (\<lambda>old new. lookup h ref old = Found (DigestRef new) \<and>
             OriginalTag new = OriginalTag old \<and> Name new = Name old \<and>
             Metadata new = Metadata old) imgs newImgs \<and>
          rewriteImageLock h opts ref w =
            (case Marshal h (lockFile\<lparr>Spec := (Spec lockFile)\<lparr>Images := newImgs\<rparr>\<rparr>) of
               Inl e \<Rightarrow>
                 (Some (''Marshalling image lock file: '' @ e),
                  w\<lparr>ui := ui w @ [''Locating image lock file images...\<newline>''],
                    trace := trace w @ EvReadImageLockFile (imageLockPath h (OutputPath opts)) #
                       map (\<lambda>x. EvGeneric (queried (lookup h ref x))) imgs\<rparr>)
             | Inr bytes \<Rightarrow>
                 (fst (WriteFile h (imageLockPath h (OutputPath opts)) bytes 600 (fs w)),
                  w\<lparr>fs := snd (WriteFile h (imageLockPath h (OutputPath opts)) bytes 600 (fs w)),
                    ui := ui w @ [''Locating image lock file images...\<newline>'',
                       ''All images found in bundle repo. Updating lock file\<newline>''],
                    trace := trace w @ EvReadImageLockFile (imageLockPath h (OutputPath opts)) #
                       map (\<lambda>x. EvGeneric (queried (lookup h ref x))) imgs @
                       [EvWriteFile (imageLockPath h (OutputPath opts)) bytes 600]\<rparr>)))) \<and>
    (\<not> list_all (\<lambda>x. isFound (lookup h ref x)) imgs \<longrightarrow>
       fs (snd (rewriteImageLock h opts ref w)) = fs w \<and>
       (\<exists>evs. trace (snd (rewriteImageLock h opts ref w)) = trace w @ evs \<and>
              list_all (\<lambda>e. \<not> changesFilesystem e) evs))"
proof (intro conjI allI impI)
  let ?P = "imageLockPath h (OutputPath opts)"
  let ?w2 = "w\<lparr>ui := ui w @ [locatingNotice], trace := trace w @ [EvReadImageLockFile ?P]\<rparr>"
  have ne: "Images (Spec lockFile) \<noteq> []" using assms(2,3) by simp
  note rw = rewriteImageLock_locate[OF assms(1) ne, of ref, unfolded Let_def assms(2)]
  {
    fix k
    assume k: "k < length imgs"
      and hyp: "list_all (\<lambda>x. \<not> isMalformed (lookup h ref x)) (take k imgs) \<and>
                isNotFound (lookup h ref (imgs ! k))"
    have split: "imgs = take k imgs @ imgs ! k # drop (Suc k) imgs"
      using k by (simp add: id_take_nth_drop)
    have tk: "take k imgs @ [imgs ! k] = take (Suc k) imgs"
      using k by (simp add: take_Suc_conv_app_nth)
    from locate_abort[of h ref "take k imgs" "imgs ! k" "drop (Suc k) imgs" "[]" ?w2] hyp
    obtain n where n: "n \<le> length (take k imgs)"
      "isNotFound (lookup h ref ((take k imgs @ [imgs ! k]) ! n))"
      "locate h ref (take k imgs @ imgs ! k # drop (Suc k) imgs) [] ?w2 =
         (Return None,
          ?w2\<lparr>ui := ui ?w2 @ [skipNotice],
             trace := trace ?w2 @ map (\<lambda>x. EvGeneric (queried (lookup h ref x)))
                 (take (Suc n) (take k imgs @ [imgs ! k]))\<rparr>)"
      by blast
    from n(1) k have nk: "n \<le> k" by simp
    have nth: "(take k imgs @ [imgs ! k]) ! n = imgs ! n"
      unfolding tk using nk by simp
    have tn: "take (Suc n) (take k imgs @ [imgs ! k]) = take (Suc n) imgs"
      unfolding tk using nk by (simp add: min_def)
    have "rewriteImageLock h opts ref w =
            (None,
             w\<lparr>ui := ui w @ [''Locating image lock file images...\<newline>'',
                   ''One or more images not found in bundle repo. Skipping lock file update\<newline>''],
               trace := trace w @ EvReadImageLockFile ?P #
                   map (\<lambda>x. EvGeneric (queried (lookup h ref x))) (take (Suc n) imgs)\<rparr>)"
      unfolding rw using n(3) unfolding split[symmetric] tn
      by (simp add: Let_def skipNotice_def locatingNotice_def)
    with n(2) nk show "\<exists>n\<le>k. isNotFound (lookup h ref (imgs ! n)) \<and>
          rewriteImageLock h opts ref w =
            (None,
             w\<lparr>ui := ui w @ [''Locating image lock file images...\<newline>'',
                   ''One or more images not found in bundle repo. Skipping lock file update\<newline>''],
               trace := trace w @ EvReadImageLockFile ?P #
                   map (\<lambda>x. EvGeneric (queried (lookup h ref x))) (take (Suc n) imgs)\<rparr>)"
      unfolding nth by blast
  }
  {
    assume all: "list_all (\<lambda>x. isFound (lookup h ref x)) imgs"
    from locate_all_found[OF all, of "[]" "[]" ?w2]
    have l: "locate h ref imgs [] ?w2 =
       (Finished (map (relocate h ref) imgs),
        ?w2\<lparr>trace := trace ?w2 @ map (\<lambda>x. EvGeneric (queried (lookup h ref x))) imgs\<rparr>)"
      by simp
    have "rewriteImageLock h opts ref w =
            (case Marshal h (lockFile\<lparr>Spec := (Spec lockFile)\<lparr>Images := map (relocate h ref) imgs\<rparr>\<rparr>) of
               Inl e \<Rightarrow>
                 (Some (''Marshalling image lock file: '' @ e),
                  w\<lparr>ui := ui w @ [''Locating image lock file images...\<newline>''],
                    trace := trace w @ EvReadImageLockFile ?P #
                       map (\<lambda>x. EvGeneric (queried (lookup h ref x))) imgs\<rparr>)
             | Inr bytes \<Rightarrow>
                 (fst (WriteFile h ?P bytes 600 (fs w)),
                  w\<lparr>fs := snd (WriteFile h ?P bytes 600 (fs w)),
                    ui := ui w @ [''Locating image lock file images...\<newline>'',
                       ''All images found in bundle repo. Updating lock file\<newline>''],
                    trace := trace w @ EvReadImageLockFile ?P #
                       map (\<lambda>x. EvGeneric (queried (lookup h ref x))) imgs @
                       [EvWriteFile ?P bytes 600]\<rparr>))"
      unfolding rw l
      by (simp add: Let_def locatingNotice_def updatingNotice_def split: sum.splits)
    with relocate_all_found[OF all]
    show "\<exists>newImgs.
          list_all2 (\<lambda>old new. lookup h ref old = Found (DigestRef new) \<and>
             OriginalTag new = OriginalTag old \<and> Name new = Name old \<and>
             Metadata new = Metadata old) imgs newImgs \<and>
          rewriteImageLock h opts ref w =
            (case Marshal h (lockFile\<lparr>Spec := (Spec lockFile)\<lparr>Images := newImgs\<rparr>\<rparr>) of
               Inl e \<Rightarrow>
                 (Some (''Marshalling image lock file: '' @ e),
                  w\<lparr>ui := ui w @ [''Locating image lock file images...\<newline>''],
                    trace := trace w @ EvReadImageLockFile ?P #
                       map (\<lambda>x. EvGeneric (queried (lookup h ref x))) imgs\<rparr>)
             | Inr bytes \<Rightarrow>
                 (fst (WriteFile h ?P bytes 600 (fs w)),
                  w\<lparr>fs := snd (WriteFile h ?P bytes 600 (fs w)),
                    ui := ui w @ [''Locating image lock file images...\<newline>'',
                       ''All images found in bundle repo. Updating lock file\<newline>''],
                    trace := trace w @ EvReadImageLockFile ?P #
                       map (\<lambda>x. EvGeneric (queried (lookup h ref x))) imgs @
                       [EvWriteFile ?P bytes 600]\<rparr>))"
      by blast
  }
  {
    assume nall: "\<not> list_all (\<lambda>x. isFound (lookup h ref x)) imgs"
    obtain res w3 where l: "locate h ref imgs [] ?w2 = (res, w3)"
      by (cases "locate h ref imgs [] ?w2")
    from nall locate_finished_iff[of h ref imgs "[]" ?w2 _ w3] l
    obtain r where res: "res = Return r" by (cases res) auto
    from locate_frame[OF l] obtain evs where
      f: "fs w3 = fs w" and t: "trace w3 = trace w @ EvReadImageLockFile ?P # evs"
      and e: "list_all (\<lambda>e. \<exists>u. e = EvGeneric u) evs"
      by auto
    from e have e': "list_all (\<lambda>e. \<not> changesFilesystem e) evs"
      by (induction evs) auto
    have "rewriteImageLock h opts ref w = (r, w3)"
      unfolding rw l res by (simp add: Let_def)
    then show "fs (snd (rewriteImageLock h opts ref w)) = fs w"
      and "\<exists>evs. trace (snd (rewriteImageLock h opts ref w)) = trace w @ evs \<and>
              list_all (\<lambda>e. \<not> changesFilesystem e) evs"
      using f t e' by auto
  }
qed

theorem rewrite_all_or_nothing_witness:
  "(\<exists>n\<le>1. isNotFound (lookup partialHost (parseRef ''reg/app'') ([imgA, imgB] ! n)) \<and>
      rewriteImageLock partialHost bundleOpts (parseRef ''reg/app'') demoWorld =
        (None,
         demoWorld\<lparr>ui := ui demoWorld @ [''Locating image lock file images...\<newline>'',
               ''One or more images not found in bundle repo. Skipping lock file update\<newline>''],
           trace := trace demoWorld @
               EvReadImageLockFile (imageLockPath partialHost (OutputPath bundleOpts)) #
               map (\<lambda>x. EvGeneric (queried (lookup partialHost (parseRef ''reg/app'') x)))
                 (take (Suc n) [imgA, imgB])\<rparr>)) \<and>
   fs (snd (rewriteImageLock partialHost bundleOpts (parseRef ''reg/app'') demoWorld)) =
     [(''out/.imgpkg/images.yml'', ''images'')] \<and>
   fs (snd (rewriteImageLock demoHost bundleOpts (parseRef ''reg/app'') demoWorld)) =
     [(''out/.imgpkg/images.yml'', ''reg/app@sha256:aa\<newline>reg/app@sha256:bb\<newline>'')]"
proof -
  let ?R = "parseRef ''reg/app''"
  have read: "ReadImageLockFile partialHost (fs demoWorld)
                (imageLockPath partialHost (OutputPath bundleOpts)) = Inr demoLock"
    by (simp add: demo_defs)
  have imgs: "Images (Spec demoLock) = [imgA, imgB]" by (simp add: demoLock_def)
  have a: "lookup partialHost ?R imgA = Found ''reg/app@sha256:aa''"
    by (simp add: lookup_def demo_defs)
  have b: "lookup partialHost ?R imgB = NotFound ''reg/app@sha256:bb''"
    by (simp add: lookup_def demo_defs)
  have hyp: "(1::nat) < length [imgA, imgB] \<and>
     list_all (\<lambda>x. \<not> isMalformed (lookup partialHost ?R x)) (take 1 [imgA, imgB]) \<and>
     isNotFound (lookup partialHost ?R ([imgA, imgB] ! 1))"
    by (simp add: a b)
  note inst = rewrite_all_or_nothing[OF read imgs, of ?R]
  from inst hyp have first: "\<exists>n\<le>1. isNotFound (lookup partialHost ?R ([imgA, imgB] ! n)) \<and>
      rewriteImageLock partialHost bundleOpts ?R demoWorld =
        (None,
         demoWorld\<lparr>ui := ui demoWorld @ [''Locating image lock file images...\<newline>'',
               ''One or more images not found in bundle repo. Skipping lock file update\<newline>''],
           trace := trace demoWorld @
               EvReadImageLockFile (imageLockPath partialHost (OutputPath bundleOpts)) #
               map (\<lambda>x. EvGeneric (queried (lookup partialHost ?R x)))
                 (take (Suc n) [imgA, imgB])\<rparr>)"
    by blast
  then have second:
    "fs (snd (rewriteImageLock partialHost bundleOpts ?R demoWorld)) =
       [(''out/.imgpkg/images.yml'', ''images'')]"
    by (auto simp: demoWorld_def)
  have read': "ReadImageLockFile demoHost (fs demoWorld)
                 (imageLockPath demoHost (OutputPath bundleOpts)) = Inr demoLock"
    by (simp add: demo_defs)
  have a': "lookup demoHost ?R imgA = Found ''reg/app@sha256:aa''"
    by (simp add: lookup_def demo_defs)
  have b': "lookup demoHost ?R imgB = Found ''reg/app@sha256:bb''"
    by (simp add: lookup_def demo_defs)
  have all: "list_all (\<lambda>x. isFound (lookup demoHost ?R x)) [imgA, imgB]"
    by (simp add: a' b')
  note inst' = rewrite_all_or_nothing[OF read' imgs, of ?R]
  from inst' all obtain newImgs where
    rel: "list_all2 (\<lambda>old new. lookup demoHost ?R old = Found (DigestRef new) \<and>
             OriginalTag new = OriginalTag old \<and> Name new = Name old \<and>
             Metadata new = Metadata old) [imgA, imgB] newImgs"
    and run: "rewriteImageLock demoHost bundleOpts ?R demoWorld =
       (case Marshal demoHost (demoLock\<lparr>Spec := (Spec demoLock)\<lparr>Images := newImgs\<rparr>\<rparr>) of
          Inl e \<Rightarrow>
            (Some (''Marshalling image lock file: '' @ e),
             demoWorld\<lparr>ui := ui demoWorld @ [''Locating image lock file images...\<newline>''],
               trace := trace demoWorld @
                  EvReadImageLockFile (imageLockPath demoHost (OutputPath bundleOpts)) #
                  map (\<lambda>x. EvGeneric (queried (lookup demoHost ?R x))) [imgA, imgB]\<rparr>)
        | Inr bytes \<Rightarrow>
            (fst (WriteFile demoHost (imageLockPath demoHost (OutputPath bundleOpts)) bytes 600
                   (fs demoWorld)),
             demoWorld\<lparr>fs := snd (WriteFile demoHost (imageLockPath demoHost (OutputPath bundleOpts))
                                  bytes 600 (fs demoWorld)),
               ui := ui demoWorld @ [''Locating image lock file images...\<newline>'',
                  ''All images found in bundle repo. Updating lock file\<newline>''],
               trace := trace demoWorld @
                  EvReadImageLockFile (imageLockPath demoHost (OutputPath bundleOpts)) #
                  map (\<lambda>x. EvGeneric (queried (lookup demoHost ?R x))) [imgA, imgB] @
                  [EvWriteFile (imageLockPath demoHost (OutputPath bundleOpts)) bytes 600]\<rparr>))"
    by blast
  from rel obtain y1 y2 where ys: "newImgs = [y1, y2]"
    "DigestRef y1 = ''reg/app@sha256:aa''" "DigestRef y2 = ''reg/app@sha256:bb''"
    by (auto simp: list_all2_Cons1 a' b')
  have third: "fs (snd (rewriteImageLock demoHost bundleOpts ?R demoWorld)) =
     [(''out/.imgpkg/images.yml'', ''reg/app@sha256:aa\<newline>reg/app@sha256:bb\<newline>'')]"
    unfolding run ys(1) using ys(2,3)
    by (simp add: demoHost_def demoWorld_def bundleOpts_def demoLock_def)
  from first second third show ?thesis by blast
qed

text \<open>
  Claim C2 (classifier exclusivity), as the code has it. The manifest \<open>m\<close> of the first
  image has been fetched.
  \<^item> With the image flag set, the pull fails with the error that names the bundle flag
    (\<open>-b\<close>) as soon as the manifest carries the bundle annotation, whatever its value.
  \<^item> Without the image flag (bundle or lock intent), the pull fails with the error that
    names the image flag (\<open>--image\<close>) when the annotation is absent or its value is not
    the literal \<open>true\<close>.
  \<^item> In both cases the filesystem is untouched. In every other case neither of the two
    errors is returned.
\<close>

theorem classifier_exclusivity:
  assumes "getRefFromFlags h opts w = (Inr inputRef, w1)"
    and "ParseReference h inputRef = Inr ref"
    and "RegistryImages h ref = Inr (img # rest)"
    and "Manifest img = Inr m"
  shows
   "(Image (ImageFlags opts) \<noteq> [] \<and> Annotations m (BundleAnnotation h) \<noteq> None \<longrightarrow>
       fst (Run h opts w) = Some ''Expected bundle flag when pulling a bundle, please use -b instead of --image'' \<and>
       fs (snd (Run h opts w)) = fs w) \<and>
    (Image (ImageFlags opts) = [] \<and> Annotations m (BundleAnnotation h) \<noteq> Some ''true'' \<longrightarrow>
       fst (Run h opts w) = Some ''Expected image flag when pulling an image or index, please use --image instead of -b'' \<and>
       fs (snd (Run h opts w)) = fs w) \<and>
    (Image (ImageFlags opts) \<noteq> [] \<and> Annotations m (BundleAnnotation h) = None \<or>
     Image (ImageFlags opts) = [] \<and> Annotations m (BundleAnnotation h) = Some ''true'' \<longrightarrow>
       fst (Run h opts w) \<noteq> Some ''Expected bundle flag when pulling a bundle, please use -b instead of --image'' \<and>
       fst (Run h opts w) \<noteq> Some ''Expected image flag when pulling an image or index, please use --image instead of -b'')"
proof -
  let ?w3 = "if rest \<noteq> [] then BeginLinef multipleNotice (record_event (EvImages inputRef) w1)
             else record_event (EvImages inputRef) w1"
  note run = Run_pullImage[OF assms(1-3)]
  from getRefFromFlags_frame[OF assms(1)] have f: "fs ?w3 = fs w"
    by (simp add: BeginLinef_def record_event_def)
  have mismatch: "fst (Run h opts w) = Some e \<and> fs (snd (Run h opts w)) = fs w"
    if "checkIntent h opts m = Some e" for e
    unfolding run pullImage_mismatch[OF assms(4) that] using f
    by (simp add: record_event_def)
  have pass: "fst (Run h opts w) \<noteq> Some ''Expected bundle flag when pulling a bundle, please use -b instead of --image'' \<and>
              fst (Run h opts w) \<noteq> Some ''Expected image flag when pulling an image or index, please use --image instead of -b''"
    if "checkIntent h opts m = None"
  proof -
    have "take 3 e \<in> {''Get'', ''Dis'', ''Rem'', ''Cre'', ''Ext'', ''Rew''}"
      if "fst (Run h opts w) = Some e" for e
      using pullImage_error[OF assms(4) \<open>checkIntent h opts m = None\<close>] that
      unfolding run by blast
    then show ?thesis by fastforce
  qed
  show ?thesis
    using mismatch pass unfolding checkIntent_cases[of h opts m]
    by (simp split: if_splits)
qed

theorem classifier_exclusivity_witness:
  "fst (Run demoHost imageOpts demoWorld) = Some ''Expected bundle flag when pulling a bundle, please use -b instead of --image'' \<and>
   fs (snd (Run demoHost imageOpts demoWorld)) = fs demoWorld \<and>
   fst (Run (demoHost\<lparr>RegistryImages := \<lambda>r. Inr [plainImage]\<rparr>) bundleOpts demoWorld) =
     Some ''Expected image flag when pulling an image or index, please use --image instead of -b'' \<and>
   fst (Run demoHost bundleOpts demoWorld) \<noteq>
     Some ''Expected image flag when pulling an image or index, please use --image instead of -b''"
proof -
  have g: "getRefFromFlags demoHost imageOpts demoWorld = (Inr ''reg/app'', demoWorld)"
    by (simp add: getRefFromFlags_def demo_defs)
  have p: "ParseReference demoHost ''reg/app'' = Inr (parseRef ''reg/app'')"
    by (simp add: demoHost_def)
  have i: "RegistryImages demoHost (parseRef ''reg/app'') =
             Inr [annotated ''dev.carvel.imgpkg.bundle'' ''true'']"
    by (simp add: demoHost_def)
  have m: "Manifest (annotated ''dev.carvel.imgpkg.bundle'' ''true'') =
             Inr \<lparr>Annotations = [''dev.carvel.imgpkg.bundle'' \<mapsto> ''true'']\<rparr>"
    by (simp add: annotated_def)
  have first: "fst (Run demoHost imageOpts demoWorld) = Some ''Expected bundle flag when pulling a bundle, please use -b instead of --image'' \<and>
     fs (snd (Run demoHost imageOpts demoWorld)) = fs demoWorld"
    using classifier_exclusivity[OF g p i m] by (simp add: demoHost_def imageOpts_def)
  let ?h = "demoHost\<lparr>RegistryImages := \<lambda>r. Inr [plainImage]\<rparr>"
  have g': "getRefFromFlags ?h bundleOpts demoWorld = (Inr ''reg/app'', demoWorld)"
    by (simp add: getRefFromFlags_def demo_defs)
  have p': "ParseReference ?h ''reg/app'' = Inr (parseRef ''reg/app'')"
    by (simp add: demoHost_def)
  have i': "RegistryImages ?h (parseRef ''reg/app'') = Inr [plainImage]"
    by simp
  have m': "Manifest plainImage = Inr \<lparr>Annotations = Map.empty\<rparr>"
    by (simp add: plainImage_def)
  have second: "fst (Run ?h bundleOpts demoWorld) = Some ''Expected image flag when pulling an image or index, please use --image instead of -b''"
    using classifier_exclusivity[OF g' p' i' m'] by (simp add: bundleOpts_def)
  have g'': "getRefFromFlags demoHost bundleOpts demoWorld = (Inr ''reg/app'', demoWorld)"
    by (simp add: getRefFromFlags_def demo_defs)
  have third: "fst (Run demoHost bundleOpts demoWorld) \<noteq>
     Some ''Expected image flag when pulling an image or index, please use --image instead of -b''"
    using classifier_exclusivity[OF g'' p i m] by (simp add: demoHost_def bundleOpts_def)
  from first second third show ?thesis by blast
qed

theorem classifier_exclusivity_counterexample:
  "Image (ImageFlags imageOpts) \<noteq> [] \<and>
   Manifest (annotated (BundleAnnotation demoHost) ''false'') =
     Inr \<lparr>Annotations = [BundleAnnotation demoHost \<mapsto> ''false'']\<rparr> \<and>
   fst (Run (demoHost\<lparr>RegistryImages :=
               \<lambda>r. Inr [annotated (BundleAnnotation demoHost) ''false'']\<rparr>)
          imageOpts demoWorld) = Some ''Expected bundle flag when pulling a bundle, please use -b instead of --image''"
  by (simp add: run_defs demo_defs)

text \<open>
  Claim C6 (reference sources exclude each other). A flag is supplied when it is not the
  empty string. With none of the three supplied, and with two or three of them supplied,
  \<open>Run\<close> returns the usage error of \<open>getRefFromFlags\<close> and the world is the one it started
  with: nothing was read, asked of the registry or written.
\<close>

theorem reference_source_exclusion:
  "(LockPath opts = [] \<and> Image (ImageFlags opts) = [] \<and> Bundle (BundleFlags opts) = []
      \<longrightarrow> Run h opts w = (Some ''Expected either image, bundle, or lock'', w)) \<and>
   (2 \<le> length (filter (\<lambda>s. s \<noteq> [])
                   [LockPath opts, Image (ImageFlags opts), Bundle (BundleFlags opts)])
      \<longrightarrow> Run h opts w = (Some ''Expected only one of image, bundle, or lock'', w))"
proof (intro conjI impI)
  assume "LockPath opts = [] \<and> Image (ImageFlags opts) = [] \<and> Bundle (BundleFlags opts) = []"
  then show "Run h opts w = (Some ''Expected either image, bundle, or lock'', w)"
    by (simp add: Run_def getRefFromFlags_def)
next
  assume "2 \<le> length (filter (\<lambda>s. s \<noteq> [])
                   [LockPath opts, Image (ImageFlags opts), Bundle (BundleFlags opts)])"
  then have "pickRef [] [LockPath opts, Image (ImageFlags opts), Bundle (BundleFlags opts)]
             = Inl ''Expected only one of image, bundle, or lock''"
    by (rule pickRef_two)
  then show "Run h opts w = (Some ''Expected only one of image, bundle, or lock'', w)"
    by (simp add: Run_def getRefFromFlags_def)
qed

theorem reference_source_exclusion_witness:
  "Run demoHost (bundleOpts\<lparr>BundleFlags := \<lparr>Bundle = []\<rparr>\<rparr>) demoWorld =
     (Some ''Expected either image, bundle, or lock'', demoWorld) \<and>
   Run demoHost (bundleOpts\<lparr>ImageFlags := \<lparr>Image = ''reg/app''\<rparr>\<rparr>) demoWorld =
     (Some ''Expected only one of image, bundle, or lock'', demoWorld) \<and>
   Run demoHost (imageOpts\<lparr>LockPath := ''bundle.lock.yml''\<rparr>) demoWorld =
     (Some ''Expected only one of image, bundle, or lock'', demoWorld)"
  using reference_source_exclusion[of "bundleOpts\<lparr>BundleFlags := \<lparr>Bundle = []\<rparr>\<rparr>" demoHost demoWorld]
    reference_source_exclusion[of "bundleOpts\<lparr>ImageFlags := \<lparr>Image = ''reg/app''\<rparr>\<rparr>" demoHost demoWorld]
    reference_source_exclusion[of "imageOpts\<lparr>LockPath := ''bundle.lock.yml''\<rparr>" demoHost demoWorld]
  by (simp add: bundleOpts_def imageOpts_def)

text \<open>
  Claim C7 (disallowed destination). When the output path is \<open>/\<close>, \<open>.\<close> or \<open>..\<close>, \<open>Run\<close>
  returns an error, the filesystem is the one it started with, and no event of the run is
  a \<open>RemoveAll\<close>, a \<open>MkdirAll\<close>, an extraction or a write. The error is the usage error
  about the disallowed output directory whenever the run gets as far as looking at the
  output path, that is when the reference, the images, the manifest, the intent check
  and the digest went through; a failure of one of these is returned instead, before the
  output path is looked at.
\<close>

theorem disallowed_destination:
  assumes "OutputPath opts = ''/'' \<or> OutputPath opts = ''.'' \<or> OutputPath opts = ''..''"
  shows "(\<exists>e. fst (Run h opts w) = Some e) \<and> fs (snd (Run h opts w)) = fs w \<and>
         (\<exists>evs. trace (snd (Run h opts w)) = trace w @ evs \<and>
                list_all (\<lambda>e. \<not> changesFilesystem e) evs) \<and>
         (\<forall>inputRef w1 ref img rest m d.
            getRefFromFlags h opts w = (Inr inputRef, w1) \<and>
            ParseReference h inputRef = Inr ref \<and>
            RegistryImages h ref = Inr (img # rest) \<and>
            Manifest img = Inr m \<and> checkIntent h opts m = None \<and> Digest img = Inr d \<longrightarrow>
            fst (Run h opts w) =
              Some ''Disallowed output directory (trying to avoid accidental deletion)'')"
  using Run_disallowed[OF assms, of h w] Run_disallowed_usage[OF assms, of h w]
  by blast

theorem disallowed_destination_witness:
  "fst (Run demoHost (bundleOpts\<lparr>OutputPath := ''/''\<rparr>) demoWorld) =
     Some ''Disallowed output directory (trying to avoid accidental deletion)'' \<and>
   fs (snd (Run demoHost (bundleOpts\<lparr>OutputPath := ''/''\<rparr>) demoWorld)) = fs demoWorld \<and>
   (\<exists>evs. trace (snd (Run demoHost (bundleOpts\<lparr>OutputPath := ''/''\<rparr>) demoWorld)) =
            trace demoWorld @ evs \<and> list_all (\<lambda>e. \<not> changesFilesystem e) evs)"
proof -
  let ?o = "bundleOpts\<lparr>OutputPath := ''/''\<rparr>"
  let ?i = "annotated ''dev.carvel.imgpkg.bundle'' ''true''"
  have o: "OutputPath ?o = ''/'' \<or> OutputPath ?o = ''.'' \<or> OutputPath ?o = ''..''"
    by simp
  have pre: "getRefFromFlags demoHost ?o demoWorld = (Inr ''reg/app'', demoWorld) \<and>
      ParseReference demoHost ''reg/app'' = Inr (parseRef ''reg/app'') \<and>
      RegistryImages demoHost (parseRef ''reg/app'') = Inr (?i # []) \<and>
      Manifest ?i = Inr \<lparr>Annotations = [''dev.carvel.imgpkg.bundle'' \<mapsto> ''true'']\<rparr> \<and>
      checkIntent demoHost ?o \<lparr>Annotations = [''dev.carvel.imgpkg.bundle'' \<mapsto> ''true'']\<rparr> = None \<and>
      Digest ?i = Inr ''sha256:00''"
    by (simp add: getRefFromFlags_def checkIntent_def annotation_def demo_defs)
  from disallowed_destination[OF o, of demoHost demoWorld] pre show ?thesis
    by blast
qed

text \<open>
  Claim C8 (empty lock document). When the lock document that was read has no image
  entries, \<open>rewriteImageLock\<close> returns \<open>nil\<close>; the only event is the reading of the
  document, so the registry is not asked and nothing is written; the filesystem and the
  ui are as before.
\<close>

theorem empty_lock_document:
  assumes "ReadImageLockFile h (fs w) (imageLockPath h (OutputPath opts)) = Inr lockFile"
    and "Images (Spec lockFile) = []"
  shows "rewriteImageLock h opts ref w =
           (None, w\<lparr>trace := trace w @ [EvReadImageLockFile (imageLockPath h (OutputPath opts))]\<rparr>)"
  using assms by (simp add: rewriteImageLock_def record_event_def Let_def)

theorem empty_lock_document_witness:
  "rewriteImageLock (demoHost\<lparr>ReadImageLockFile := \<lambda>files p. Inr emptyLock\<rparr>) bundleOpts
     (parseRef ''reg/app'') demoWorld =
   (None, demoWorld\<lparr>trace := [EvReadImageLockFile ''out/.imgpkg/images.yml'']\<rparr>)"
proof -
  let ?h = "demoHost\<lparr>ReadImageLockFile := \<lambda>files p. Inr emptyLock\<rparr>"
  have r: "ReadImageLockFile ?h (fs demoWorld) (imageLockPath ?h (OutputPath bundleOpts)) =
             Inr emptyLock"
    by simp
  have e: "Images (Spec emptyLock) = []" by (simp add: emptyLock_def)
  from empty_lock_document[OF r e, of "parseRef ''reg/app''"] show ?thesis
    by (simp add: demo_defs)
qed



section \<open>Properties of the tar image\<close>

subsection \<open>Names of the entries\<close>

lemma isExcludedLoop_iff: "isExcludedLoop xs r \<longleftrightarrow> r \<in> set xs"
  by (induction xs) auto

lemma isExcluded_iff: "isExcluded i r \<longleftrightarrow> r \<in> set (excludePaths i)"
  by (simp add: isExcluded_def isExcludedLoop_iff)

lemma wellNamedEntries_iff:
  "wellNamedEntries cs \<longleftrightarrow> (\<forall>c\<in>set cs. CHR ''/'' \<notin> set (fst c) \<and> wellNamed (snd c))"
  by (induction cs) auto

lemma wellNamedEntries_sort: "wellNamedEntries (sort_key fst cs) = wellNamedEntries cs"
  by (simp add: wellNamedEntries_iff)

lemma emittedUnder_self:
  "\<not> isExcluded i (relPathOf names) \<Longrightarrow> hName (fst e) = relPathOf names \<Longrightarrow> emittedUnder i names e"
  unfolding emittedUnder_def by (rule exI[of _ "[]"]) simp

lemma emittedUnder_child:
  assumes "\<not> isExcluded i (relPathOf names)" and "CHR ''/'' \<notin> set c"
    and "emittedUnder i (names @ [c]) e"
  shows "emittedUnder i names e"
proof -
  from assms(3) obtain suffix where s: "hName (fst e) = relPathOf ((names @ [c]) @ suffix)"
    "list_all (\<lambda>x. CHR ''/'' \<notin> set x) suffix"
    "\<forall>k\<le>length suffix. \<not> isExcluded i (relPathOf ((names @ [c]) @ take k suffix))"
    unfolding emittedUnder_def by blast
  have "\<not> isExcluded i (relPathOf (names @ take k (c # suffix)))" if "k \<le> length (c # suffix)" for k
  proof (cases k)
    case 0
    then show ?thesis using assms(1) by simp
  next
    case (Suc j)
    then show ?thesis using s(3) that by simp
  qed
  then show ?thesis
    unfolding emittedUnder_def using s(1,2) assms(2)
    by (intro exI[of _ "c # suffix"]) simp
qed

lemma walkFn_cases:
  "walkFn i p names n None out =
     (case n of
        File m t c \<Rightarrow>
          if m AND ModeType \<noteq> 0 then (Some (Error (expectedRegular p)), out)
          else if isExcluded i (relPathOf names) then (None, out)
          else (None, out\<lparr>infoLog := infoLog out @ [''file: '' @ relPathOf names @ ''\<newline>''],
                   tar := tar out @ [(\<lparr>hName = relPathOf names, hSize = int (length c), hMode = 384,
                       hModTime = 0, hTypeflag = TypeReg\<rparr>, c)]\<rparr>)
      | Dir m t s cs \<Rightarrow>
          if isExcluded i (relPathOf names) then (Some SkipDir, out)
          else (None, out\<lparr>infoLog := infoLog out @ [''dir: '' @ relPathOf names @ ''\<newline>''],
                   tar := tar out @ [(\<lparr>hName = relPathOf names, hSize = s, hMode = 448,
                       hModTime = 0, hTypeflag = TypeDir\<rparr>, [])]\<rparr>))"
  by (simp add: walkFn_def addDirToTar_def addFileToTar_def expectedRegular_def Let_def
      split: node.splits)

lemma walkFn_emitted:
  "walkFn i p names n None out = (r, out') \<Longrightarrow>
   \<exists>new. tar out' = tar out @ new \<and> (\<forall>e\<in>set new. emittedUnder i names e)"
  unfolding walkFn_cases
  by (auto simp: emittedUnder_self split: node.splits if_splits)

lemma walk_emitted:
  "wellNamed n \<Longrightarrow> walk sys i p names n out = (r, out') \<Longrightarrow>
     \<exists>new. tar out' = tar out @ new \<and> (\<forall>e\<in>set new. emittedUnder i names e)"
  "wellNamedEntries cs \<Longrightarrow> \<not> isExcluded i (relPathOf names) \<Longrightarrow>
   walkNames sys i p names cs out = (r, out') \<Longrightarrow>
     \<exists>new. tar out' = tar out @ new \<and> (\<forall>e\<in>set new. emittedUnder i names e)"
proof (induction sys i p names n out and sys i p names cs out arbitrary: r out' and r out'
    rule: walk_walkNames.induct)
  case (1 sys i p names m t c out)
  then show ?case using walkFn_emitted[of i p names "File m t c" out r out'] by simp
next
  case (2 sys i p names m t s cs out)
  obtain r1 out1 where f: "walkFn i p names (Dir m t s cs) None out = (r1, out1)"
    by (cases "walkFn i p names (Dir m t s cs) None out")
  from walkFn_emitted[OF f] obtain new1 where
    n1: "tar out1 = tar out @ new1" "\<forall>e\<in>set new1. emittedUnder i names e" by blast
  show ?case
  proof (cases r1)
    case (Some e)
    with 2(3) f n1 show ?thesis by auto
  next
    case None
    with f have ne: "\<not> isExcluded i (relPathOf names)"
      unfolding walkFn_cases by (auto split: if_splits)
    from None f 2(3) have w: "walkNames sys i p names (sort_key fst cs) out1 = (r, out')"
      by simp
    from 2(2) have "wellNamedEntries (sort_key fst cs)" by (simp add: wellNamedEntries_sort)
    from 2(1)[OF f[symmetric] _ this ne w] None obtain new2 where
      "tar out' = tar out1 @ new2" "\<forall>e\<in>set new2. emittedUnder i names e" by auto
    with n1 show ?thesis by auto
  qed
next
  case (3 sys i p names out)
  then show ?case by simp
next
  case (4 sys i p names c cs out)
  obtain r1 out1 where f:
    "walk sys i (Join sys p (fst c)) (names @ [fst c]) (snd c) out = (r1, out1)"
    by (cases "walk sys i (Join sys p (fst c)) (names @ [fst c]) (snd c) out")
  from 4(4) have wn: "CHR ''/'' \<notin> set (fst c)" "wellNamed (snd c)" "wellNamedEntries cs"
    by (cases c; simp)+
  from 4(1)[OF wn(2) f] obtain new1 where
    n1: "tar out1 = tar out @ new1" "\<forall>e\<in>set new1. emittedUnder i (names @ [fst c]) e" by blast
  from n1(2) have n1': "\<forall>e\<in>set new1. emittedUnder i names e"
    using emittedUnder_child[OF 4(5) wn(1)] by blast
  show ?case
  proof (cases "r1 = None \<or> (IsDir (info_of (snd c)) \<and> r1 = Some SkipDir)")
    case False
    with 4(6) f have "out' = out1" by (auto split: option.splits)
    with n1 n1' show ?thesis by auto
  next
    case True
    then have w: "walkNames sys i p names cs out1 = (r, out')"
      using 4(6) f by (auto split: option.splits)
    have "\<exists>new. tar out' = tar out1 @ new \<and> (\<forall>e\<in>set new. emittedUnder i names e)"
    proof (cases r1)
      case None
      from 4(2)[OF f[symmetric] None wn(3) 4(5) w] show ?thesis .
    next
      case (Some e)
      with True have "\<not> (\<not> IsDir (info_of (snd c)) \<or> e \<noteq> SkipDir)" by simp
      from 4(3)[OF f[symmetric] Some this wn(3) 4(5) w] show ?thesis .
    qed
    with n1 n1' show ?thesis by auto
  qed
qed

lemma prefix_sep:
  "c \<notin> set n \<Longrightarrow> prefix (p @ [c]) (n @ c # R) \<Longrightarrow>
   p = n \<or> (\<exists>p'. p = n @ c # p' \<and> prefix (p' @ [c]) R)"
proof (induction n arbitrary: p)
  case Nil
  then show ?case by (cases p) auto
next
  case (Cons a n)
  then show ?case by (cases p) auto
qed

lemma relPathOf_Cons: "ns \<noteq> [] \<Longrightarrow> relPathOf (n # ns) = n @ ''/'' @ relPathOf ns"
  by (cases ns) simp_all

lemma prefix_relPathOf:
  "list_all (\<lambda>x. CHR ''/'' \<notin> set x) ns \<Longrightarrow> ns \<noteq> [] \<Longrightarrow> prefix (p @ ''/'') (relPathOf ns) \<Longrightarrow>
   \<exists>j. 0 < j \<and> j < length ns \<and> p = relPathOf (take j ns)"
proof (induction ns arbitrary: p)
  case Nil
  then show ?case by simp
next
  case (Cons n ns)
  show ?case
  proof (cases ns)
    case Nil
    with Cons.prems have "prefix (p @ ''/'') n" "CHR ''/'' \<notin> set n" by simp_all
    then have False using set_mono_prefix[of "p @ ''/''" n] by auto
    then show ?thesis ..
  next
    case (Cons m rest)
    then have ne: "ns \<noteq> []" by simp
    from Cons.prems(1) have nn: "CHR ''/'' \<notin> set n" and rest: "list_all (\<lambda>x. CHR ''/'' \<notin> set x) ns"
      by simp_all
    from Cons.prems(3) have "prefix (p @ [CHR ''/'']) (n @ CHR ''/'' # relPathOf ns)"
      by (simp add: relPathOf_Cons[OF ne])
    from prefix_sep[OF nn this]
    consider "p = n" | p' where "p = n @ CHR ''/'' # p'" "prefix (p' @ ''/'') (relPathOf ns)"
      by auto
    then show ?thesis
    proof cases
      case 1
      then show ?thesis using ne by (intro exI[of _ 1]) (cases ns; simp)
    next
      case 2
      from Cons.IH[OF rest ne 2(2)] obtain j where
        j: "0 < j" "j < length ns" "p' = relPathOf (take j ns)" by blast
      then have "take j ns \<noteq> []" using ne by (cases ns; cases j; simp)
      then have "relPathOf (take (Suc j) (n # ns)) = n @ ''/'' @ relPathOf (take j ns)"
        by (simp add: relPathOf_Cons)
      with 2(1) j show ?thesis by (intro exI[of _ "Suc j"]) simp
    qed
  qed
qed

lemma emittedUnder_root:
  assumes "emittedUnder i [] e" and "p \<in> set (excludePaths i)"
  shows "hName (fst e) \<noteq> p \<and> \<not> prefix (p @ ''/'') (hName (fst e))"
proof -
  from assms(1) obtain ns where ns: "hName (fst e) = relPathOf ns"
    "list_all (\<lambda>x. CHR ''/'' \<notin> set x) ns"
    "\<forall>k\<le>length ns. \<not> isExcluded i (relPathOf (take k ns))"
    unfolding emittedUnder_def by auto
  from ns(3) have "\<not> isExcluded i (relPathOf ns)" by force
  with assms(2) ns(1) have a: "hName (fst e) \<noteq> p" by (auto simp: isExcluded_iff)
  have b: "\<not> prefix (p @ ''/'') (hName (fst e))"
  proof
    assume pre: "prefix (p @ ''/'') (hName (fst e))"
    show False
    proof (cases "ns = []")
      case True
      with pre ns(1) show False by (cases p) auto
    next
      case False
      from prefix_relPathOf[OF ns(2) False pre[unfolded ns(1)]] obtain j where
        "j < length ns" "p = relPathOf (take j ns)" by blast
      with ns(3) assms(2) show False by (auto simp: isExcluded_iff)
    qed
  qed
  from a b show ?thesis ..
qed

lemma Walk_emitted:
  assumes "case Lstat sys root of Inl e \<Rightarrow> True | Inr n \<Rightarrow> wellNamed n"
    and "Walk sys i root out = (r, out')"
  shows "\<exists>new. tar out' = tar out @ new \<and> (\<forall>e\<in>set new. emittedUnder i [] e)"
proof (cases "Lstat sys root")
  case (Inl e)
  with assms(2) have "out' = out"
    by (auto simp: Walk_def walkFn_def split: prod.splits option.splits signal.splits)
  then show ?thesis by simp
next
  case (Inr n)
  obtain r1 out1 where w: "walk sys i root [] n out = (r1, out1)"
    by (cases "walk sys i root [] n out")
  from assms(1) Inr have "wellNamed n" by simp
  from walk_emitted(1)[OF this w] obtain new where
    "tar out1 = tar out @ new" "\<forall>e\<in>set new. emittedUnder i [] e" by blast
  moreover from assms(2) Inr w have "out' = out1"
    by (auto simp: Walk_def split: option.splits signal.splits)
  ultimately show ?thesis by auto
qed

lemma createTarball_names:
  "list_all (wellFormedInput sys) filePaths \<Longrightarrow> createTarball sys i filePaths out = (r, out') \<Longrightarrow>
   \<exists>new. tar out' = tar out @ new \<and>
     (\<forall>e\<in>set new. \<forall>p\<in>set (excludePaths i).
        hName (fst e) \<noteq> p \<and> \<not> prefix (p @ ''/'') (hName (fst e)))"
proof (induction filePaths arbitrary: out)
  case Nil
  then show ?case by simp
next
  case (Cons path filePaths)
  let ?good = "\<lambda>e. \<forall>p\<in>set (excludePaths i). hName (fst e) \<noteq> p \<and> \<not> prefix (p @ ''/'') (hName (fst e))"
  from Cons.prems(1) have wf: "wellFormedInput sys path" and rest: "list_all (wellFormedInput sys) filePaths"
    by simp_all
  show ?case
  proof (cases "Stat sys path")
    case (Inl e)
    with Cons.prems(2) show ?thesis by simp
  next
    case (Inr n)
    show ?thesis
    proof (cases "IsDir (info_of n)")
      case True
      obtain r1 out1 where w: "Walk sys i path out = (r1, out1)"
        by (cases "Walk sys i path out")
      from wf have "case Lstat sys path of Inl e \<Rightarrow> True | Inr n \<Rightarrow> wellNamed n"
        by (simp add: wellFormedInput_def)
      from Walk_emitted[OF this w] obtain new1 where
        n1: "tar out1 = tar out @ new1" "\<forall>e\<in>set new1. emittedUnder i [] e" by blast
      from n1(2) have g1: "\<forall>e\<in>set new1. ?good e" using emittedUnder_root by blast
      show ?thesis
      proof (cases r1)
        case None
        with Cons.prems(2) Inr True w have "createTarball sys i filePaths out1 = (r, out')"
          by simp
        from Cons.IH[OF rest this] obtain new2 where
          "tar out' = tar out1 @ new2" "\<forall>e\<in>set new2. ?good e" by blast
        with n1(1) g1 show ?thesis by auto
      next
        case (Some e)
        with Cons.prems(2) Inr True w have "out' = out1" by simp
        with n1(1) g1 show ?thesis by auto
      qed
    next
      case False
      with wf Inr have nb: "CHR ''/'' \<notin> set (Base sys path)"
        by (simp add: wellFormedInput_def)
      obtain r1 out1 where a: "addFileToTar i (content_of n) (Base sys path) (info_of n) out = (r1, out1)"
        by (cases "addFileToTar i (content_of n) (Base sys path) (info_of n) out")
      have "\<exists>new1. tar out1 = tar out @ new1 \<and> (\<forall>e\<in>set new1. ?good e) \<and> r1 = None"
      proof (cases "isExcluded i (Base sys path)")
        case True
        with a show ?thesis by (simp add: addFileToTar_def)
      next
        case False
        have "\<not> prefix (p @ ''/'') (Base sys path)" for p
          using nb set_mono_prefix[of "p @ ''/''" "Base sys path"] by auto
        with False a show ?thesis
          by (auto simp: addFileToTar_def Let_def isExcluded_iff)
      qed
      then obtain new1 where n1: "tar out1 = tar out @ new1" "\<forall>e\<in>set new1. ?good e" "r1 = None"
        by blast
      with Cons.prems(2) Inr False a have "createTarball sys i filePaths out1 = (r, out')"
        by simp
      from Cons.IH[OF rest this] obtain new2 where
        "tar out' = tar out1 @ new2" "\<forall>e\<in>set new2. ?good e" by blast
      with n1 show ?thesis by auto
    qed
  qed
qed

lemma walk_excluded_dir:
  "isExcluded i (relPathOf names) \<Longrightarrow> walk sys i p names (Dir m t s cs) out = (Some SkipDir, out)"
  by (simp add: walkFn_cases)

subsection \<open>Metadata and determinism\<close>

lemma walkFn_normal:
  "walkFn i p names n None out = (r, out') \<Longrightarrow>
   \<exists>new. tar out' = tar out @ new \<and> (\<forall>e\<in>set new. normalEntry e)"
  unfolding walkFn_cases
  by (auto simp: normalEntry_def split: node.splits if_splits)

lemma walk_normal:
  "walk sys i p names n out = (r, out') \<Longrightarrow>
     \<exists>new. tar out' = tar out @ new \<and> (\<forall>e\<in>set new. normalEntry e)"
  "walkNames sys i p names cs out = (r, out') \<Longrightarrow>
     \<exists>new. tar out' = tar out @ new \<and> (\<forall>e\<in>set new. normalEntry e)"
proof (induction sys i p names n out and sys i p names cs out arbitrary: r out' and r out'
    rule: walk_walkNames.induct)
  case (1 sys i p names m t c out)
  then show ?case using walkFn_normal[of i p names "File m t c" out r out'] by simp
next
  case (2 sys i p names m t s cs out)
  obtain r1 out1 where f: "walkFn i p names (Dir m t s cs) None out = (r1, out1)"
    by (cases "walkFn i p names (Dir m t s cs) None out")
  from walkFn_normal[OF f] obtain new1 where
    n1: "tar out1 = tar out @ new1" "\<forall>e\<in>set new1. normalEntry e" by blast
  show ?case
  proof (cases r1)
    case (Some e)
    with 2(2) f n1 show ?thesis by auto
  next
    case None
    from None f 2(2) have w: "walkNames sys i p names (sort_key fst cs) out1 = (r, out')"
      by simp
    from 2(1)[OF f[symmetric] _ w] None obtain new2 where
      "tar out' = tar out1 @ new2" "\<forall>e\<in>set new2. normalEntry e" by auto
    with n1 show ?thesis by auto
  qed
next
  case (3 sys i p names out)
  then show ?case by simp
next
  case (4 sys i p names c cs out)
  obtain r1 out1 where f:
    "walk sys i (Join sys p (fst c)) (names @ [fst c]) (snd c) out = (r1, out1)"
    by (cases "walk sys i (Join sys p (fst c)) (names @ [fst c]) (snd c) out")
  from 4(1)[OF f] obtain new1 where
    n1: "tar out1 = tar out @ new1" "\<forall>e\<in>set new1. normalEntry e" by blast
  show ?case
  proof (cases "r1 = None \<or> (IsDir (info_of (snd c)) \<and> r1 = Some SkipDir)")
    case False
    with 4(4) f have "out' = out1" by (auto split: option.splits)
    with n1 show ?thesis by auto
  next
    case True
    then have w: "walkNames sys i p names cs out1 = (r, out')"
      using 4(4) f by (auto split: option.splits)
    have "\<exists>new. tar out' = tar out1 @ new \<and> (\<forall>e\<in>set new. normalEntry e)"
    proof (cases r1)
      case None
      from 4(2)[OF f[symmetric] None w] show ?thesis .
    next
      case (Some e)
      with True have "\<not> (\<not> IsDir (info_of (snd c)) \<or> e \<noteq> SkipDir)" by simp
      from 4(3)[OF f[symmetric] Some this w] show ?thesis .
    qed
    with n1 show ?thesis by auto
  qed
qed

lemma Walk_normal:
  assumes "Walk sys i root out = (r, out')"
  shows "\<exists>new. tar out' = tar out @ new \<and> (\<forall>e\<in>set new. normalEntry e)"
proof (cases "Lstat sys root")
  case (Inl e)
  with assms have "out' = out"
    by (auto simp: Walk_def walkFn_def split: prod.splits option.splits signal.splits)
  then show ?thesis by simp
next
  case (Inr n)
  obtain r1 out1 where w: "walk sys i root [] n out = (r1, out1)"
    by (cases "walk sys i root [] n out")
  from walk_normal(1)[OF w] obtain new where
    "tar out1 = tar out @ new" "\<forall>e\<in>set new. normalEntry e" by blast
  moreover from assms Inr w have "out' = out1"
    by (auto simp: Walk_def split: option.splits signal.splits)
  ultimately show ?thesis by auto
qed

lemma createTarball_normal:
  "createTarball sys i filePaths out = (r, out') \<Longrightarrow>
   \<exists>new. tar out' = tar out @ new \<and> (\<forall>e\<in>set new. normalEntry e)"
proof (induction filePaths arbitrary: out)
  case Nil
  then show ?case by simp
next
  case (Cons path filePaths)
  show ?case
  proof (cases "Stat sys path")
    case (Inl e)
    with Cons.prems show ?thesis by simp
  next
    case (Inr n)
    show ?thesis
    proof (cases "IsDir (info_of n)")
      case True
      obtain r1 out1 where w: "Walk sys i path out = (r1, out1)"
        by (cases "Walk sys i path out")
      from Walk_normal[OF w] obtain new1 where
        n1: "tar out1 = tar out @ new1" "\<forall>e\<in>set new1. normalEntry e" by blast
      show ?thesis
      proof (cases r1)
        case None
        with Cons.prems Inr True w have "createTarball sys i filePaths out1 = (r, out')"
          by simp
        from Cons.IH[OF this] obtain new2 where
          "tar out' = tar out1 @ new2" "\<forall>e\<in>set new2. normalEntry e" by blast
        with n1 show ?thesis by auto
      next
        case (Some e)
        with Cons.prems Inr True w have "out' = out1" by simp
        with n1 show ?thesis by auto
      qed
    next
      case False
      obtain r1 out1 where a: "addFileToTar i (content_of n) (Base sys path) (info_of n) out = (r1, out1)"
        by (cases "addFileToTar i (content_of n) (Base sys path) (info_of n) out")
      from False have nf: "\<exists>m t c. n = File m t c" by (cases n) auto
      from a nf have "\<exists>new1. tar out1 = tar out @ new1 \<and> (\<forall>e\<in>set new1. normalEntry e) \<and> r1 = None"
        by (auto simp: addFileToTar_def Let_def normalEntry_def split: if_splits)
      then obtain new1 where n1: "tar out1 = tar out @ new1" "\<forall>e\<in>set new1. normalEntry e" "r1 = None"
        by blast
      with Cons.prems Inr False a have "createTarball sys i filePaths out1 = (r, out')"
        by simp
      from Cons.IH[OF this] obtain new2 where
        "tar out' = tar out1 @ new2" "\<forall>e\<in>set new2. normalEntry e" by blast
      with n1 show ?thesis by auto
    qed
  qed
qed



lemma map_fst_observedEntries: "map fst (observedEntries cs) = map fst cs"
  by (induction cs) auto

lemma sort_observedEntries:
  "sort_key fst (observedEntries (sort_key fst cs)) = observedEntries (sort_key fst cs)"
  by (rule sort_key_id_if_sorted) (simp add: map_fst_observedEntries)

lemma info_of_observed:
  "IsDir (info_of (observed n)) = IsDir (info_of n)"
  by (cases n) auto

lemma walkFn_observed: "walkFn i p names (observed n) None out = walkFn i p names n None out"
  unfolding walkFn_cases by (cases n) (auto simp: word_bw_assocs)

lemma walk_observed:
  "walk sys i p names (observed n) out = walk sys i p names n out"
  "walkNames sys i p names (observedEntries cs) out = walkNames sys i p names cs out"
proof (induction sys i p names n out and sys i p names cs out
    rule: walk_walkNames.induct)
  case (1 sys i p names m t c out)
  show ?case using walkFn_observed[of i p names "File m t c" out] by simp
next
  case (2 sys i p names m t s cs out)
  have f: "walkFn i p names (Dir 0 0 s (observedEntries (sort_key fst cs))) None out =
           walkFn i p names (Dir m t s cs) None out"
    using walkFn_observed[of i p names "Dir m t s cs" out] by simp
  show ?case
  proof (cases "walkFn i p names (Dir m t s cs) None out")
    case (Pair r1 out1)
    show ?thesis
    proof (cases r1)
      case None
      from 2[OF Pair[symmetric] None] show ?thesis
        using Pair None f by (simp add: sort_observedEntries)
    next
      case (Some e)
      then show ?thesis using Pair f by simp
    qed
  qed
next
  case (3 sys i p names out)
  show ?case by simp
next
  case (4 sys i p names c cs out)
  show ?case
  proof (cases "walk sys i (Join sys p (fst c)) (names @ [fst c]) (snd c) out")
    case (Pair r1 out1)
    note w = 4(1)[unfolded Pair]
    show ?thesis
    proof (cases r1)
      case None
      from 4(2)[OF Pair[symmetric] None] show ?thesis
        using Pair None w by simp
    next
      case (Some e)
      show ?thesis
      proof (cases "\<not> IsDir (info_of (snd c)) \<or> e \<noteq> SkipDir")
        case True
        then show ?thesis using Pair Some w by (simp add: info_of_observed)
      next
        case False
        from 4(3)[OF Pair[symmetric] Some False] show ?thesis
          using Pair Some w False by (simp add: info_of_observed)
      qed
    qed
  qed
qed

lemma walk_sameObserved1:
  "observed n = observed n' \<Longrightarrow> walk sys i p names n out = walk sys i p names n' out"
  using walk_observed(1)[of sys i p names n out] walk_observed(1)[of sys i p names n' out] by simp

lemma walk_Join:
  "Join sys' = Join sys \<Longrightarrow> walk sys' i p names n out = walk sys i p names n out"
  "Join sys' = Join sys \<Longrightarrow> walkNames sys' i p names cs out = walkNames sys i p names cs out"
proof (induction sys i p names n out and sys i p names cs out
    rule: walk_walkNames.induct)
  case (1 sys i p names m t c out)
  show ?case by simp
next
  case (2 sys i p names m t s cs out)
  then show ?case by (auto split: prod.splits option.splits)
next
  case (3 sys i p names out)
  show ?case by simp
next
  case (4 sys i p names c cs out)
  then show ?case by (auto split: prod.splits option.splits)
qed

lemma Walk_sameObserved:
  assumes "sameObserved sys sys'"
  shows "Walk sys' i root out = Walk sys i root out"
proof -
  from assms have j: "Join sys' = Join sys"
    and l: "rel_sum (=) (\<lambda>n n'. observed n = observed n') (Lstat sys root) (Lstat sys' root)"
    by (simp_all add: sameObserved_def)
  show ?thesis
  proof (cases "Lstat sys root")
    case (Inl e)
    with l have "Lstat sys' root = Inl e" by (cases "Lstat sys' root") auto
    with Inl show ?thesis by (simp add: Walk_def)
  next
    case (Inr n)
    with l obtain n' where n': "Lstat sys' root = Inr n'" "observed n = observed n'"
      by (cases "Lstat sys' root") auto
    have "walk sys' i root [] n' out = walk sys i root [] n out"
      using walk_Join(1)[OF j] walk_sameObserved1[OF n'(2)] by simp
    with Inr n'(1) show ?thesis by (simp add: Walk_def)
  qed
qed

lemma observed_eq_File:
  "observed n = observed n' \<Longrightarrow> \<not> IsDir (info_of n) \<Longrightarrow>
   \<not> IsDir (info_of n') \<and> content_of n' = content_of n \<and> Size (info_of n') = Size (info_of n)"
  by (cases n; cases n') auto

lemma createTarball_sameObserved:
  assumes "sameObserved sys sys'"
  shows "createTarball sys' i filePaths out = createTarball sys i filePaths out"
proof (induction filePaths arbitrary: out)
  case Nil
  show ?case by simp
next
  case (Cons path filePaths)
  from assms have b: "Base sys' = Base sys"
    and s: "rel_sum (=) (\<lambda>n n'. observed n = observed n') (Stat sys path) (Stat sys' path)"
    by (simp_all add: sameObserved_def)
  show ?case
  proof (cases "Stat sys path")
    case (Inl e)
    with s have "Stat sys' path = Inl e" by (cases "Stat sys' path") auto
    with Inl show ?thesis by simp
  next
    case (Inr n)
    with s obtain n' where n': "Stat sys' path = Inr n'" "observed n = observed n'"
      by (cases "Stat sys' path") auto
    from n'(2) have d: "IsDir (info_of n') = IsDir (info_of n)"
      using info_of_observed[of n] info_of_observed[of n'] by simp
    show ?thesis
    proof (cases "IsDir (info_of n)")
      case True
      then show ?thesis using Inr n'(1) d Cons.IH Walk_sameObserved[OF assms]
        by (simp split: prod.splits option.splits)
    next
      case False
      from observed_eq_File[OF n'(2) False] have
        "addFileToTar i (content_of n') (Base sys' path) (info_of n') out =
         addFileToTar i (content_of n) (Base sys path) (info_of n) out"
        by (simp add: addFileToTar_def b)
      then show ?thesis using Inr n'(1) d False Cons.IH
        by (simp split: prod.splits option.splits)
    qed
  qed
qed

subsection \<open>The same logical trees: archives up to the sizes of directories\<close>

lemma eraseDirSizes_simps:
  "tar (eraseDirSizes out) = map eraseDirSize (tar out)"
  "infoLog (eraseDirSizes out) = infoLog out"
  by (simp_all add: eraseDirSizes_def)

lemma eraseDirSizes_eq_iff:
  "eraseDirSizes out = eraseDirSizes out' \<longleftrightarrow>
     map eraseDirSize (tar out) = map eraseDirSize (tar out') \<and> infoLog out = infoLog out'"
  by (cases out; cases out') (simp add: eraseDirSizes_def)

lemma map_fst_logicalEntries: "map fst (logicalEntries cs) = map fst cs"
  by (induction cs) auto

lemma sort_logicalEntries:
  "sort_key fst (logicalEntries (sort_key fst cs)) = logicalEntries (sort_key fst cs)"
  by (rule sort_key_id_if_sorted) (simp add: map_fst_logicalEntries)

lemma info_of_logical: "IsDir (info_of (logical n)) = IsDir (info_of n)"
  by (cases n) auto

lemma walkFn_logical:
  assumes "eraseDirSizes out = eraseDirSizes out'"
  shows "fst (walkFn i p names (logical n) None out) = fst (walkFn i p names n None out') \<and>
         eraseDirSizes (snd (walkFn i p names (logical n) None out)) =
         eraseDirSizes (snd (walkFn i p names n None out'))"
  using assms unfolding walkFn_cases eraseDirSizes_eq_iff
  by (cases n) (auto simp: word_bw_assocs eraseDirSize_def TypeDir_def TypeReg_def)

lemma walk_logical:
  "eraseDirSizes out = eraseDirSizes out' \<Longrightarrow>
     fst (walk sys i p names (logical n) out) = fst (walk sys i p names n out') \<and>
     eraseDirSizes (snd (walk sys i p names (logical n) out)) =
     eraseDirSizes (snd (walk sys i p names n out'))"
  "eraseDirSizes out = eraseDirSizes out' \<Longrightarrow>
     fst (walkNames sys i p names (logicalEntries cs) out) = fst (walkNames sys i p names cs out') \<and>
     eraseDirSizes (snd (walkNames sys i p names (logicalEntries cs) out)) =
     eraseDirSizes (snd (walkNames sys i p names cs out'))"
proof (induction sys i p names n out' and sys i p names cs out' arbitrary: out and out
    rule: walk_walkNames.induct)
  case (1 sys i p names m t c out')
  show ?case using walkFn_logical[OF 1, of i p names "File m t c"] by simp
next
  case (2 sys i p names m t s cs out')
  obtain r1 out1 where a: "walkFn i p names (Dir 0 0 0 (logicalEntries (sort_key fst cs))) None out = (r1, out1)"
    by (cases "walkFn i p names (Dir 0 0 0 (logicalEntries (sort_key fst cs))) None out")
  obtain r1' out1' where b: "walkFn i p names (Dir m t s cs) None out' = (r1', out1')"
    by (cases "walkFn i p names (Dir m t s cs) None out'")
  from walkFn_logical[OF 2(2), of i p names "Dir m t s cs"] a b
  have r: "r1 = r1'" and e: "eraseDirSizes out1 = eraseDirSizes out1'" by simp_all
  show ?case
  proof (cases r1')
    case None
    from 2(1)[OF b[symmetric] None e] show ?thesis
      using a b r None by (simp add: sort_logicalEntries)
  next
    case (Some x)
    then show ?thesis using a b r e by simp
  qed
next
  case (3 sys i p names out')
  then show ?case by simp
next
  case (4 sys i p names c cs out')
  obtain r1 out1 where a:
    "walk sys i (Join sys p (fst c)) (names @ [fst c]) (logical (snd c)) out = (r1, out1)"
    by (cases "walk sys i (Join sys p (fst c)) (names @ [fst c]) (logical (snd c)) out")
  obtain r1' out1' where b:
    "walk sys i (Join sys p (fst c)) (names @ [fst c]) (snd c) out' = (r1', out1')"
    by (cases "walk sys i (Join sys p (fst c)) (names @ [fst c]) (snd c) out'")
  from 4(1)[OF 4(4)] a b
  have r: "r1 = r1'" and e: "eraseDirSizes out1 = eraseDirSizes out1'" by simp_all
  show ?case
  proof (cases r1')
    case None
    from 4(2)[OF b[symmetric] None e] show ?thesis
      using a b r None by simp
  next
    case (Some x)
    show ?thesis
    proof (cases "\<not> IsDir (info_of (snd c)) \<or> x \<noteq> SkipDir")
      case True
      then show ?thesis using a b r e Some by (simp add: info_of_logical)
    next
      case False
      from 4(3)[OF b[symmetric] Some False e] show ?thesis
        using a b r Some False by (simp add: info_of_logical)
    qed
  qed
qed

lemma walk_sameTree:
  assumes "logical n = logical n'" and "eraseDirSizes out = eraseDirSizes out'"
  shows "fst (walk sys i p names n out) = fst (walk sys i p names n' out') \<and>
         eraseDirSizes (snd (walk sys i p names n out)) =
         eraseDirSizes (snd (walk sys i p names n' out'))"
  using walk_logical(1)[of out out sys i p names n]
    walk_logical(1)[OF assms(2), of sys i p names n'] assms(1)
  by simp

lemma Walk_sameTrees:
  assumes "sameTrees sys sys'" and "eraseDirSizes out = eraseDirSizes out'"
  shows "fst (Walk sys i root out) = fst (Walk sys' i root out') \<and>
         eraseDirSizes (snd (Walk sys i root out)) = eraseDirSizes (snd (Walk sys' i root out'))"
proof -
  from assms(1) have j: "Join sys' = Join sys"
    and l: "rel_sum (=) (\<lambda>n n'. logical n = logical n') (Lstat sys root) (Lstat sys' root)"
    by (simp_all add: sameTrees_def)
  show ?thesis
  proof (cases "Lstat sys root")
    case (Inl e)
    with l have "Lstat sys' root = Inl e" by (cases "Lstat sys' root") auto
    with Inl assms(2) show ?thesis by (simp add: Walk_def walkFn_def)
  next
    case (Inr n)
    with l obtain n' where n': "Lstat sys' root = Inr n'" "logical n = logical n'"
      by (cases "Lstat sys' root") auto
    obtain r1 out1 where a: "walk sys i root [] n out = (r1, out1)"
      by (cases "walk sys i root [] n out")
    obtain r1' out1' where b: "walk sys i root [] n' out' = (r1', out1')"
      by (cases "walk sys i root [] n' out'")
    from walk_sameTree[OF n'(2) assms(2), of sys i root "[]"] a b
    have "r1 = r1'" "eraseDirSizes out1 = eraseDirSizes out1'" by simp_all
    then show ?thesis using Inr n'(1) a b walk_Join(1)[OF j, of i root "[]" n' out']
      by (simp add: Walk_def split: option.splits signal.splits)
  qed
qed

lemma logical_eq_File:
  "logical n = logical n' \<Longrightarrow> \<not> IsDir (info_of n) \<Longrightarrow>
   \<not> IsDir (info_of n') \<and> content_of n' = content_of n \<and> Size (info_of n') = Size (info_of n)"
  by (cases n; cases n') auto

lemma createTarball_sameTrees:
  assumes "sameTrees sys sys'"
  shows "eraseDirSizes out = eraseDirSizes out' \<Longrightarrow>
         fst (createTarball sys i filePaths out) = fst (createTarball sys' i filePaths out') \<and>
         eraseDirSizes (snd (createTarball sys i filePaths out)) =
         eraseDirSizes (snd (createTarball sys' i filePaths out'))"
proof (induction filePaths arbitrary: out out')
  case Nil
  then show ?case by simp
next
  case (Cons path filePaths)
  from assms have bs: "Base sys' = Base sys"
    and s: "rel_sum (=) (\<lambda>n n'. logical n = logical n') (Stat sys path) (Stat sys' path)"
    by (simp_all add: sameTrees_def)
  show ?case
  proof (cases "Stat sys path")
    case (Inl e)
    with s have "Stat sys' path = Inl e" by (cases "Stat sys' path") auto
    with Inl Cons.prems show ?thesis by simp
  next
    case (Inr n)
    with s obtain n' where n': "Stat sys' path = Inr n'" "logical n = logical n'"
      by (cases "Stat sys' path") auto
    from n'(2) have d: "IsDir (info_of n') = IsDir (info_of n)"
      using info_of_logical[of n] info_of_logical[of n'] by simp
    show ?thesis
    proof (cases "IsDir (info_of n)")
      case True
      obtain r1 out1 where a: "Walk sys i path out = (r1, out1)" by (cases "Walk sys i path out")
      obtain r1' out1' where b: "Walk sys' i path out' = (r1', out1')"
        by (cases "Walk sys' i path out'")
      from Walk_sameTrees[OF assms Cons.prems, of i path] a b
      have r: "r1 = r1'" and e: "eraseDirSizes out1 = eraseDirSizes out1'" by simp_all
      show ?thesis
      proof (cases r1')
        case None
        with Cons.IH[OF e] show ?thesis using Inr n'(1) d True a b r by simp
      next
        case (Some x)
        then show ?thesis using Inr n'(1) d True a b r e by simp
      qed
    next
      case False
      from logical_eq_File[OF n'(2) False] have same:
        "content_of n' = content_of n" "Size (info_of n') = Size (info_of n)" by simp_all
      obtain r1 out1 where a:
        "addFileToTar i (content_of n) (Base sys path) (info_of n) out = (r1, out1)"
        by (cases "addFileToTar i (content_of n) (Base sys path) (info_of n) out")
      obtain r1' out1' where b:
        "addFileToTar i (content_of n') (Base sys' path) (info_of n') out' = (r1', out1')"
        by (cases "addFileToTar i (content_of n') (Base sys' path) (info_of n') out'")
      from a b Cons.prems same bs
      have r: "r1 = r1'" and e: "eraseDirSizes out1 = eraseDirSizes out1'" and nn: "r1' = None"
        unfolding eraseDirSizes_eq_iff
        by (auto simp: addFileToTar_def Let_def split: if_splits)
      with Cons.IH[OF e] show ?thesis using Inr n'(1) d False a b by simp
    qed
  qed
qed

subsection \<open>Entries that are not regular files\<close>

lemma walkFn_specials:
  "walkFn i p names n None out = (r, out') \<Longrightarrow>
   (case n of
      File m t c \<Rightarrow>
        if m AND ModeType \<noteq> 0 then r = Some (Error (expectedRegular p)) \<and> out' = out
        else r = None
    | Dir m t s cs \<Rightarrow>
        if isExcluded i (relPathOf names) then r = Some SkipDir \<and> out' = out else r = None)"
  unfolding walkFn_cases by (auto split: node.splits if_splits)

lemma walk_specials:
  "walk sys i p names n out = (r, out') \<Longrightarrow>
     (if specials sys i p names n = []
      then r = None \<or> (r = Some SkipDir \<and> IsDir (info_of n) \<and> out' = out)
      else r = Some (Error (expectedRegular (hd (specials sys i p names n)))))"
  "\<not> isExcluded i (relPathOf names) \<Longrightarrow> walkNames sys i p names cs out = (r, out') \<Longrightarrow>
     (if specialsIn sys i p names cs = [] then r = None
      else r = Some (Error (expectedRegular (hd (specialsIn sys i p names cs)))))"
proof (induction sys i p names n out and sys i p names cs out arbitrary: r out' and r out'
    rule: walk_walkNames.induct)
  case (1 sys i p names m t c out)
  then show ?case using walkFn_specials[of i p names "File m t c" out r out'] by auto
next
  case (2 sys i p names m t s cs out)
  obtain r1 out1 where f: "walkFn i p names (Dir m t s cs) None out = (r1, out1)"
    by (cases "walkFn i p names (Dir m t s cs) None out")
  show ?case
  proof (cases "isExcluded i (relPathOf names)")
    case True
    with walkFn_specials[OF f] 2(2) f show ?thesis by auto
  next
    case False
    with walkFn_specials[OF f] have n: "r1 = None" by simp
    with f 2(2) have w: "walkNames sys i p names (sort_key fst cs) out1 = (r, out')" by simp
    from 2(1)[OF f[symmetric] n False w] False show ?thesis by simp
  qed
next
  case (3 sys i p names out)
  then show ?case by simp
next
  case (4 sys i p names c cs out)
  obtain r1 out1 where f:
    "walk sys i (Join sys p (fst c)) (names @ [fst c]) (snd c) out = (r1, out1)"
    by (cases "walk sys i (Join sys p (fst c)) (names @ [fst c]) (snd c) out")
  note ih = 4(1)[OF f]
  show ?case
  proof (cases "specials sys i (Join sys p (fst c)) (names @ [fst c]) (snd c) = []")
    case False
    with ih have "r1 = Some (Error (expectedRegular
        (hd (specials sys i (Join sys p (fst c)) (names @ [fst c]) (snd c)))))" by simp
    with 4(5) f False show ?thesis by simp
  next
    case True
    with ih have r1: "r1 = None \<or> (r1 = Some SkipDir \<and> IsDir (info_of (snd c)) \<and> out1 = out)"
      by simp
    then have w: "walkNames sys i p names cs out1 = (r, out')"
      using 4(5) f by auto
    have "if specialsIn sys i p names cs = [] then r = None
      else r = Some (Error (expectedRegular (hd (specialsIn sys i p names cs))))"
    proof (cases r1)
      case None
      from 4(2)[OF f[symmetric] None 4(4) w] show ?thesis .
    next
      case (Some e)
      with r1 have "\<not> (\<not> IsDir (info_of (snd c)) \<or> e \<noteq> SkipDir)" by simp
      from 4(3)[OF f[symmetric] Some this 4(4) w] show ?thesis .
    qed
    with True show ?thesis by simp
  qed
qed

lemma Walk_specials:
  assumes "Lstat sys root = Inr n" and "specials sys i root [] n \<noteq> []"
  shows "fst (Walk sys i root out) = Some (Error (expectedRegular (hd (specials sys i root [] n))))"
proof -
  obtain r out' where w: "walk sys i root [] n out = (r, out')"
    by (cases "walk sys i root [] n out")
  from walk_specials(1)[OF w] assms(2)
  have "r = Some (Error (expectedRegular (hd (specials sys i root [] n))))" by simp
  with w assms(1) show ?thesis by (simp add: Walk_def)
qed

lemma Walk_no_specials:
  assumes "Lstat sys root = Inr n" and "specials sys i root [] n = []"
  shows "fst (Walk sys i root out) = None"
proof -
  obtain r out' where w: "walk sys i root [] n out = (r, out')"
    by (cases "walk sys i root [] n out")
  from walk_specials(1)[OF w] assms(2)
  have "r = None \<or> r = Some SkipDir" by auto
  with w assms(1) show ?thesis by (auto simp: Walk_def)
qed

lemma createTarball_append:
  "createTarball sys i (xs @ ys) out =
     (case createTarball sys i xs out of
        (Some e, out1) \<Rightarrow> (Some e, out1)
      | (None, out1) \<Rightarrow> createTarball sys i ys out1)"
  by (induction xs arbitrary: out) (auto split: sum.splits prod.splits option.splits)

lemma createTarball_special:
  assumes "createTarball sys i before out = (None, out1)"
    and "Stat sys path = Inr d" and "IsDir (info_of d)"
    and "Lstat sys path = Inr n" and "specials sys i path [] n \<noteq> []"
  shows "fst (createTarball sys i (before @ path # after) out) =
     Some (Error (''Adding file '' @ quoted path @ '' to tar: '' @
                  expectedRegular (hd (specials sys i path [] n))))"
proof -
  obtain r out2 where w: "Walk sys i path out1 = (r, out2)" by (cases "Walk sys i path out1")
  with Walk_specials[OF assms(4,5), of out1]
  have "r = Some (Error (expectedRegular (hd (specials sys i path [] n))))" by simp
  with w assms(1-3) show ?thesis by (simp add: createTarball_append)
qed

lemma asFileImage_error:
  assumes "TempFile sys = Inr tmpFile"
    and "fst (createTarball sys i (files i) \<lparr>tar = [], infoLog = log\<rparr>) = Some (Error e)"
  shows "fst (asFileImage sys i b tmp log) = Inl (Error e) \<and>
         fst (snd (asFileImage sys i b tmp log)) tmpFile = None"
  using assms by (auto simp: asFileImage_def split: prod.splits option.splits signal.splits)

lemmas tar_demo_defs = demoOs_def demoOs'_def demoOsSmall_def demoImage_def emptyArchive_def
  demoTree_def demoTree'_def demoTreeSmall_def baseName_def

section \<open>The claims about the tar image\<close>

text \<open>
  Claim C3 (an excluded directory prunes its subtree). The input paths have trees whose
  entry names hold no separator.
  \<^item> Whatever \<open>createTarball\<close> returns, no entry it wrote is named by an exclusion
    pattern, and no entry's name starts with an exclusion pattern followed by \<open>/\<close>: a
    directory whose relative path matches a pattern has no entry, and nothing below it
    has one, also a file that matches no pattern itself.
  \<^item> The walk does not descend: on a directory at an excluded relative path \<open>walk\<close>
    returns \<open>SkipDir\<close> and leaves archive and log as they are, whatever the directory
    holds; when the excluded path is that of the root, \<open>.\<close>, the whole walk adds nothing.
\<close>

theorem exclusion_subtree_pruning:
  assumes "list_all (wellFormedInput sys) filePaths"
    and "createTarball sys i filePaths out = (r, out')"
  shows "(\<exists>new. tar out' = tar out @ new \<and>
            (\<forall>e\<in>set new. \<forall>p\<in>set (excludePaths i).
               hName (fst e) \<noteq> p \<and> \<not> prefix (p @ ''/'') (hName (fst e)))) \<and>
         (\<forall>p names m t s cs a0. isExcluded i (relPathOf names) \<longrightarrow>
            walk sys i p names (Dir m t s cs) a0 = (Some SkipDir, a0)) \<and>
         (\<forall>root m t s cs a0. isExcluded i ''.'' \<and> Lstat sys root = Inr (Dir m t s cs) \<longrightarrow>
            Walk sys i root a0 = (None, a0))"
proof (intro conjI allI impI)
  show "\<exists>new. tar out' = tar out @ new \<and>
            (\<forall>e\<in>set new. \<forall>p\<in>set (excludePaths i).
               hName (fst e) \<noteq> p \<and> \<not> prefix (p @ ''/'') (hName (fst e)))"
    using assms by (rule createTarball_names)
next
  fix p names m t s cs a0
  assume "isExcluded i (relPathOf names)"
  then show "walk sys i p names (Dir m t s cs) a0 = (Some SkipDir, a0)"
    by (rule walk_excluded_dir)
next
  fix root m t s cs a0
  assume a: "isExcluded i ''.'' \<and> Lstat sys root = Inr (Dir m t s cs)"
  then have "isExcluded i (relPathOf [])" by simp
  then have "walk sys i root [] (Dir m t s cs) a0 = (Some SkipDir, a0)"
    by (rule walk_excluded_dir)
  with a show "Walk sys i root a0 = (None, a0)" by (simp add: Walk_def)
qed

theorem exclusion_subtree_pruning_witness:
  "list_all (wellFormedInput demoOs) (files demoImage) \<and>
   map (\<lambda>e. hName (fst e)) (tar (snd (createTarball demoOs demoImage (files demoImage) emptyArchive)))
     = [''.'', ''a'', ''a/x'', ''b.txt'', ''notes.txt''] \<and>
   list_all (\<lambda>e. hName (fst e) \<noteq> ''skip'' \<and> \<not> prefix ''skip/'' (hName (fst e)))
     (tar (snd (createTarball demoOs demoImage (files demoImage) emptyArchive))) \<and>
   walk demoOs demoImage ''src/skip'' [''skip'']
     (Dir 448 500 4096 [(''link'', File (ModeSymlink OR 511) 600 ''b.txt'')]) emptyArchive =
     (Some SkipDir, emptyArchive)"
proof -
  let ?run = "createTarball demoOs demoImage (files demoImage) emptyArchive"
  have wf: "list_all (wellFormedInput demoOs) (files demoImage)"
    by (simp add: wellFormedInput_def tar_demo_defs)
  have run: "?run = (fst ?run, snd ?run)" by simp
  have names: "map (\<lambda>e. hName (fst e)) (tar (snd ?run)) = [''.'', ''a'', ''a/x'', ''b.txt'', ''notes.txt'']"
    by code_simp
  have ex: "isExcluded demoImage (relPathOf [''skip''])"
    by (simp add: isExcluded_def demoImage_def)
  note inst = exclusion_subtree_pruning[OF wf run]
  from inst obtain new where new: "tar (snd ?run) = tar emptyArchive @ new"
    "\<forall>e\<in>set new. \<forall>p\<in>set (excludePaths demoImage).
        hName (fst e) \<noteq> p \<and> \<not> prefix (p @ ''/'') (hName (fst e))"
    by blast
  from new(1) have "new = tar (snd ?run)" by (simp add: emptyArchive_def)
  with new(2) have pruned:
    "list_all (\<lambda>e. hName (fst e) \<noteq> ''skip'' \<and> \<not> prefix ''skip/'' (hName (fst e))) (tar (snd ?run))"
    by (simp add: list_all_iff demoImage_def)
  from inst ex have skip: "walk demoOs demoImage ''src/skip'' [''skip'']
     (Dir 448 500 4096 [(''link'', File (ModeSymlink OR 511) 600 ''b.txt'')]) emptyArchive =
     (Some SkipDir, emptyArchive)"
    by blast
  from wf names pruned skip show ?thesis by blast
qed

text \<open>
  What holds of the metadata. The callback writes, for a directory that is not excluded,
  one entry with the directory flag, mode \<open>0700\<close> (448) and the zero time, and for a
  regular file that is not excluded, one entry with the regular-file flag, mode \<open>0600\<close>
  (384) and the zero time; the two flags differ; every entry \<open>createTarball\<close> writes has
  this metadata.
\<close>

lemma fixed_metadata:
  "(\<forall>p names m t s cs a0. \<not> isExcluded i (relPathOf names) \<longrightarrow>
      walkFn i p names (Dir m t s cs) None a0 =
        (None, a0\<lparr>infoLog := infoLog a0 @ [''dir: '' @ relPathOf names @ ''\<newline>''],
                 tar := tar a0 @ [(\<lparr>hName = relPathOf names, hSize = s, hMode = 448,
                                   hModTime = 0, hTypeflag = TypeDir\<rparr>, [])]\<rparr>)) \<and>
   (\<forall>p names m t c a0. m AND ModeType = 0 \<and> \<not> isExcluded i (relPathOf names) \<longrightarrow>
      walkFn i p names (File m t c) None a0 =
        (None, a0\<lparr>infoLog := infoLog a0 @ [''file: '' @ relPathOf names @ ''\<newline>''],
                 tar := tar a0 @ [(\<lparr>hName = relPathOf names, hSize = int (length c), hMode = 384,
                                   hModTime = 0, hTypeflag = TypeReg\<rparr>, c)]\<rparr>)) \<and>
   TypeDir \<noteq> TypeReg \<and>
   (\<forall>r out'. createTarball sys i filePaths out = (r, out') \<longrightarrow>
      (\<exists>new. tar out' = tar out @ new \<and> (\<forall>e\<in>set new. normalEntry e)))"
proof (intro conjI allI impI)
  fix p names m t s cs a0
  assume "\<not> isExcluded i (relPathOf names)"
  then show "walkFn i p names (Dir m t s cs) None a0 =
        (None, a0\<lparr>infoLog := infoLog a0 @ [''dir: '' @ relPathOf names @ ''\<newline>''],
                 tar := tar a0 @ [(\<lparr>hName = relPathOf names, hSize = s, hMode = 448,
                                   hModTime = 0, hTypeflag = TypeDir\<rparr>, [])]\<rparr>)"
    by (simp add: walkFn_cases)
next
  fix p names m t c a0
  assume "m AND ModeType = 0 \<and> \<not> isExcluded i (relPathOf names)"
  then show "walkFn i p names (File m t c) None a0 =
        (None, a0\<lparr>infoLog := infoLog a0 @ [''file: '' @ relPathOf names @ ''\<newline>''],
                 tar := tar a0 @ [(\<lparr>hName = relPathOf names, hSize = int (length c), hMode = 384,
                                   hModTime = 0, hTypeflag = TypeReg\<rparr>, c)]\<rparr>)"
    by (simp add: walkFn_cases)
next
  show "TypeDir \<noteq> TypeReg" by (simp add: TypeDir_def TypeReg_def)
next
  fix r out'
  assume "createTarball sys i filePaths out = (r, out')"
  then show "\<exists>new. tar out' = tar out @ new \<and> (\<forall>e\<in>set new. normalEntry e)"
    by (rule createTarball_normal)
qed

text \<open>
  What holds of two runs. Two systems that show the same logical trees give the same
  result (the same error, if any), the same log and archives that are equal once the
  sizes of the directory entries are set aside: the same entries in the same order, with
  the same names, modes, times, flags and contents. When the two systems also report the
  same size for every directory, the archives are equal.
\<close>

lemma determinism_up_to_directory_sizes:
  assumes "sameTrees sys sys'"
  shows "fst (createTarball sys' i filePaths out) = fst (createTarball sys i filePaths out) \<and>
         eraseDirSizes (snd (createTarball sys' i filePaths out)) =
         eraseDirSizes (snd (createTarball sys i filePaths out))"
  using createTarball_sameTrees[OF assms, of out out i filePaths] by simp

lemma determinism_for_equal_directory_sizes:
  assumes "sameObserved sys sys'"
  shows "createTarball sys' i filePaths out = createTarball sys i filePaths out"
  using assms by (rule createTarball_sameObserved)

lemma determinism_example:
  "sameObserved demoOs demoOs' \<and> demoTree \<noteq> demoTree' \<and>
   createTarball demoOs' demoImage (files demoImage) emptyArchive =
     createTarball demoOs demoImage (files demoImage) emptyArchive"
proof -
  have l: "observed demoTree = observed demoTree'" by code_simp
  have same: "sameObserved demoOs demoOs'"
    by (simp add: sameObserved_def demoOs_def demoOs'_def l)
  have diff: "demoTree \<noteq> demoTree'" by (simp add: demoTree_def demoTree'_def)
  from determinism_for_equal_directory_sizes[OF same] same diff show ?thesis by blast
qed

text \<open>
  Claim C4 (deterministic metadata: archiving the same logical tree twice yields
  archives with identical entry metadata and identical entry ordering). The ordering
  and the fixed fields are as claimed, see above; the code falls short in one field.
  \<open>addDirToTar\<close> copies \<open>info.Size()\<close> of the directory into the header, beside the mode
  and the time that it sets to constants marked \<open>static\<close>. The two example systems show the same logical tree, with the same
  modification times and the same permissions even; their filesystems report 4096 and 60
  as the sizes of the directories. The archives of the input \<open>src\<close> differ: the
  directory entries carry 4096 in one and 60 in the other. They agree in everything
  else.
\<close>

theorem directory_size_in_header:
  "sameTrees demoOs demoOsSmall \<and>
   createTarball demoOsSmall demoImage [''src''] emptyArchive \<noteq>
     createTarball demoOs demoImage [''src''] emptyArchive \<and>
   map (\<lambda>e. (hName (fst e), hSize (fst e)))
     (tar (snd (createTarball demoOs demoImage [''src''] emptyArchive))) =
     [(''.'', 4096), (''a'', 4096), (''a/x'', 3), (''b.txt'', 2)] \<and>
   map (\<lambda>e. (hName (fst e), hSize (fst e)))
     (tar (snd (createTarball demoOsSmall demoImage [''src''] emptyArchive))) =
     [(''.'', 60), (''a'', 60), (''a/x'', 3), (''b.txt'', 2)] \<and>
   eraseDirSizes (snd (createTarball demoOsSmall demoImage [''src''] emptyArchive)) =
     eraseDirSizes (snd (createTarball demoOs demoImage [''src''] emptyArchive))"
proof -
  have l: "logical demoTree = logical demoTreeSmall" by code_simp
  have same: "sameTrees demoOs demoOsSmall"
    by (simp add: sameTrees_def demoOs_def demoOsSmall_def l)
  have big: "map (\<lambda>e. (hName (fst e), hSize (fst e)))
     (tar (snd (createTarball demoOs demoImage [''src''] emptyArchive))) =
     [(''.'', 4096), (''a'', 4096), (''a/x'', 3), (''b.txt'', 2)]"
    by code_simp
  have small: "map (\<lambda>e. (hName (fst e), hSize (fst e)))
     (tar (snd (createTarball demoOsSmall demoImage [''src''] emptyArchive))) =
     [(''.'', 60), (''a'', 60), (''a/x'', 3), (''b.txt'', 2)]"
    by code_simp
  from big small have diff: "createTarball demoOsSmall demoImage [''src''] emptyArchive \<noteq>
     createTarball demoOs demoImage [''src''] emptyArchive"
    by auto
  have erased: "eraseDirSizes (snd (createTarball demoOsSmall demoImage [''src''] emptyArchive)) =
     eraseDirSizes (snd (createTarball demoOs demoImage [''src''] emptyArchive))"
    by code_simp
  from same diff big small erased show ?thesis by blast
qed

text \<open>
  Claim C5 (entries that are not regular files), as the code has it. Let a directory
  input be reached without error and let its walk reach an entry that is neither a
  regular file nor a directory, that is one that does not lie in a directory whose
  relative path is excluded. Then \<open>asFileImage\<close> returns the error that names the first
  such entry of the walk as the file expected to be regular (inside the error that names
  the input), and the temporary file is removed. Entries in an excluded directory are
  not visited and are not among the entries reached.
\<close>

theorem nonregular_rejection:
  assumes "files i = before @ path # after"
    and "createTarball sys i before \<lparr>tar = [], infoLog = log\<rparr> = (None, out1)"
    and "Stat sys path = Inr d" and "IsDir (info_of d)"
    and "Lstat sys path = Inr n" and "specials sys i path [] n \<noteq> []"
    and "TempFile sys = Inr tmpFile"
  shows "fst (asFileImage sys i b tmp log) =
           Inl (Error (''Adding file '' @ quoted path @ '' to tar: '' @
                       ''Expected file '' @ quoted (hd (specials sys i path [] n)) @
                       '' to be a regular file'')) \<and>
         fst (snd (asFileImage sys i b tmp log)) tmpFile = None \<and>
         (\<forall>p names m t s cs. isExcluded i (relPathOf names) \<longrightarrow>
            specials sys i p names (Dir m t s cs) = [])"
proof -
  from createTarball_special[OF assms(2-6), of after]
  have "fst (createTarball sys i (files i) \<lparr>tar = [], infoLog = log\<rparr>) =
     Some (Error (''Adding file '' @ quoted path @ '' to tar: '' @
                  expectedRegular (hd (specials sys i path [] n))))"
    by (simp add: assms(1))
  from asFileImage_error[OF assms(7) this, of b tmp] show ?thesis
    by (simp add: expectedRegular_def)
qed

theorem nonregular_rejection_witness:
  "specials demoOs (demoImage\<lparr>excludePaths := []\<rparr>) ''src'' [] demoTree = [''src/skip/link''] \<and>
   fst (asFileImage demoOs (demoImage\<lparr>excludePaths := []\<rparr>) False Map.empty []) =
     Inl (Error (''Adding file '' @ quoted ''src'' @ '' to tar: '' @
                 ''Expected file '' @ quoted ''src/skip/link'' @ '' to be a regular file'')) \<and>
   fst (snd (asFileImage demoOs (demoImage\<lparr>excludePaths := []\<rparr>) False Map.empty []))
     ''/tmp/imgpkg-tar-image1'' = None"
proof -
  let ?i = "demoImage\<lparr>excludePaths := []\<rparr>"
  have sp: "specials demoOs ?i ''src'' [] demoTree = [''src/skip/link'']" by code_simp
  have f: "files ?i = [] @ ''src'' # [''docs/notes.txt'']" by (simp add: demoImage_def)
  have c: "createTarball demoOs ?i [] \<lparr>tar = [], infoLog = []\<rparr> = (None, \<lparr>tar = [], infoLog = []\<rparr>)"
    by simp
  have s: "Stat demoOs ''src'' = Inr demoTree" by (simp add: demoOs_def)
  have d: "IsDir (info_of demoTree)" by (simp add: demoTree_def)
  have l: "Lstat demoOs ''src'' = Inr demoTree" by (simp add: demoOs_def)
  have ne: "specials demoOs ?i ''src'' [] demoTree \<noteq> []" by (simp add: sp)
  have t: "TempFile demoOs = Inr ''/tmp/imgpkg-tar-image1''" by (simp add: demoOs_def)
  from nonregular_rejection[OF f c s d l ne t, of False Map.empty] sp show ?thesis
    by simp
qed

theorem nonregular_rejection_counterexample:
  "specials demoOs (demoImage\<lparr>excludePaths := []\<rparr>) ''src'' [] demoTree = [''src/skip/link''] \<and>
   excludePaths demoImage = [''skip''] \<and>
   fst (asFileImage demoOs demoImage False Map.empty []) =
     Inr \<lparr>imagePath = ''/tmp/imgpkg-tar-image1'', isBundle = False\<rparr> \<and>
   map (\<lambda>e. hName (fst e))
     (the (fst (snd (asFileImage demoOs demoImage False Map.empty [])) ''/tmp/imgpkg-tar-image1''))
     = [''.'', ''a'', ''a/x'', ''b.txt'', ''notes.txt'']"
  by code_simp

text \<open>
  Claim C10 (a bare file goes by its base name). For an input path that is not a
  directory, a regular file in particular: when its base name is excluded,
  \<open>createTarball\<close> goes on to the next path with archive and log untouched and no error;
  otherwise it writes one regular-file entry named by the base name, with the file's
  content, and goes on.
\<close>

theorem bare_file_base_name:
  assumes "Stat sys path = Inr n" and "\<not> IsDir (info_of n)"
  shows "createTarball sys i (path # filePaths) out =
     (if isExcluded i (Base sys path) then createTarball sys i filePaths out
      else createTarball sys i filePaths
             (out\<lparr>infoLog := infoLog out @ [''file: '' @ Base sys path @ ''\<newline>''],
                  tar := tar out @ [(\<lparr>hName = Base sys path, hSize = Size (info_of n),
                                      hMode = 384, hModTime = 0, hTypeflag = TypeReg\<rparr>,
                                     content_of n)]\<rparr>))"
  using assms by (simp add: addFileToTar_def Let_def)

theorem bare_file_base_name_witness:
  "Base demoOs ''docs/notes.txt'' = ''notes.txt'' \<and>
   createTarball demoOs (demoImage\<lparr>excludePaths := [''notes.txt'']\<rparr>) [''docs/notes.txt'']
     emptyArchive = (None, emptyArchive) \<and>
   createTarball demoOs (demoImage\<lparr>excludePaths := [''docs/notes.txt'']\<rparr>) [''docs/notes.txt'']
     emptyArchive =
     (None, \<lparr>tar = [(\<lparr>hName = ''notes.txt'', hSize = 5, hMode = 384, hModTime = 0,
                        hTypeflag = TypeReg\<rparr>, ''hello'')],
             infoLog = [''file: notes.txt\<newline>'']\<rparr>)"
proof -
  have s: "Stat demoOs ''docs/notes.txt'' = Inr (File 420 700 ''hello'')"
    by (simp add: demoOs_def)
  have d: "\<not> IsDir (info_of (File 420 700 ''hello''))" by simp
  have b: "Base demoOs ''docs/notes.txt'' = ''notes.txt''"
    by (simp add: demoOs_def baseName_def)
  from bare_file_base_name[OF s d, of "demoImage\<lparr>excludePaths := [''notes.txt'']\<rparr>" "[]" emptyArchive]
    bare_file_base_name[OF s d, of "demoImage\<lparr>excludePaths := [''docs/notes.txt'']\<rparr>" "[]" emptyArchive]
    b show ?thesis
    by (simp add: isExcluded_def emptyArchive_def)
qed

end
